theory Spec2Isabelle
  imports Main "HOL-Library.Word"
begin

unbundle bit_operations_syntax

section \<open>The NWA audio decoder (src/dec/real\_live/nwa\_audio\_decoder.cc)\<close>

text \<open>
  A shallow embedding of \<^verbatim>\<open>nwa_audio_decoder.cc\<close>. The C++ integer types are
  modelled as follows: \<^verbatim>\<open>u8\<close>, \<^verbatim>\<open>u16\<close>, \<^verbatim>\<open>u32\<close> and \<^verbatim>\<open>s16\<close> are words of
  that width (\<open>sint\<close> reads an \<^verbatim>\<open>s16\<close>); \<^verbatim>\<open>size_t\<close> values are natural numbers
  and every \<^verbatim>\<open>size_t\<close> operation that can wrap is written with its reduction
  modulo \<open>2 ^ 64\<close> (an LP64 target); \<^verbatim>\<open>int\<close> values that only hold small
  quantities (the compression level, bit counts, shifts) are \<open>int\<close>.
  Exceptions are values: every function that can throw returns \<open>error + 'a\<close>.
\<close>

type_synonym u8 = "8 word"
type_synonym u16 = "16 word"
type_synonym u32 = "32 word"
type_synonym s16 = "16 word"
type_synonym bstr = "u8 list"

text \<open>
  The exceptions that the decoder can raise: the three classes of \<^verbatim>\<open>err.h\<close> that
  \<^verbatim>\<open>read_compressed_samples\<close> throws, with their messages; the failure of a stream or
  bitstream read that exceeds the available data, which the spec calls a bounds
  failure; and \<^verbatim>\<open>std::out_of_range\<close> of \<^verbatim>\<open>std::vector::at\<close>.
\<close>

datatype error =
    NotSupportedError string
  | CorruptDataError string
  | BadDataSizeError
  | BoundsFailure
  | OutOfRange

text \<open>Sequencing of two steps, the first of which may throw.\<close>

definition bind_err :: "error + 'a \<Rightarrow> ('a \<Rightarrow> error + 'b) \<Rightarrow> error + 'b" where
  "bind_err m f = (case m of Inl e \<Rightarrow> Inl e | Inr x \<Rightarrow> f x)"

text \<open>
  \<^verbatim>\<open>for (const auto i : algo::range(n)) body\<close> is \<open>for_range [0..<n] body\<close>: the body
  runs once per index, in order, on the state the previous run left, and the first
  exception ends the loop.
\<close>

primrec for_range :: "nat list \<Rightarrow> (nat \<Rightarrow> 's \<Rightarrow> error + 's) \<Rightarrow> 's \<Rightarrow> error + 's" where
  "for_range [] body s = Inr s"
| "for_range (i # js) body s = bind_err (body i s) (for_range js body)"

subsection \<open>size\_t arithmetic\<close>

definition size_t_mul :: "nat \<Rightarrow> nat \<Rightarrow> nat" where
  "size_t_mul a b = (a * b) mod 2 ^ 64"

definition size_t_add :: "nat \<Rightarrow> nat \<Rightarrow> nat" where
  "size_t_add a b = (a + b) mod 2 ^ 64"

definition size_t_sub :: "nat \<Rightarrow> nat \<Rightarrow> nat" where
  "size_t_sub a b = (a mod 2 ^ 64 + 2 ^ 64 - b mod 2 ^ 64) mod 2 ^ 64"

subsection \<open>The seekable byte buffer\<close>

text \<open>
  Modelled from the spec: \<^verbatim>\<open>io::MemoryStream\<close> / \<^verbatim>\<open>io::BaseByteStream\<close>
  (io/memory\_stream.h is not among the sources). The spec describes an in-memory
  random-access byte store with absolute seek, fixed-width little-endian integer
  reads and writes and bulk read-to-end, where a read that exceeds the available
  bytes is a fatal bounds failure. The store is a byte list with a cursor.
\<close>

record MemoryStream =
  buffer :: bstr
  pos :: nat

text \<open>Modelled from the spec: \<^verbatim>\<open>size()\<close>, the total buffer length.\<close>

definition stream_size :: "MemoryStream \<Rightarrow> nat" where
  "stream_size s = length (buffer s)"

text \<open>
  Modelled from the spec: \<^verbatim>\<open>seek\<close> (absolute) and \<^verbatim>\<open>skip\<close> (relative) move the
  cursor; per the spec an offset past the end of the buffer surfaces as a failure
  of the next read, not here.
\<close>

definition seek :: "nat \<Rightarrow> MemoryStream \<Rightarrow> MemoryStream" where
  "seek offset s = s\<lparr>pos := offset\<rparr>"

definition skip :: "nat \<Rightarrow> MemoryStream \<Rightarrow> MemoryStream" where
  "skip n s = s\<lparr>pos := pos s + n\<rparr>"

text \<open>
  Modelled from the spec: \<^verbatim>\<open>read(n)\<close> returns the next \<open>n\<close> bytes and advances the
  cursor, or fails when fewer than \<open>n\<close> bytes are left.
\<close>

definition read :: "nat \<Rightarrow> MemoryStream \<Rightarrow> error + (bstr \<times> MemoryStream)" where
  "read n s =
     (if pos s + n \<le> length (buffer s)
      then Inr (take n (drop (pos s) (buffer s)), s\<lparr>pos := pos s + n\<rparr>)
      else Inl BoundsFailure)"

text \<open>Modelled from the spec: \<^verbatim>\<open>read_to_eof\<close>, the bulk read of what is left.\<close>

definition read_to_eof :: "MemoryStream \<Rightarrow> bstr \<times> MemoryStream" where
  "read_to_eof s = (drop (pos s) (buffer s), s\<lparr>pos := max (pos s) (length (buffer s))\<rparr>)"

text \<open>
  Modelled from the spec: the fixed-width little-endian reads \<^verbatim>\<open>read<u8>\<close>,
  \<^verbatim>\<open>read_le<u16>\<close> and \<^verbatim>\<open>read_le<u32>\<close>, by the value of a little-endian byte
  sequence.
\<close>

primrec le_value :: "bstr \<Rightarrow> nat" where
  "le_value [] = 0"
| "le_value (b # bs) = unat b + 256 * le_value bs"

definition read_u8 :: "MemoryStream \<Rightarrow> error + (u8 \<times> MemoryStream)" where
  "read_u8 s = bind_err (read 1 s) (\<lambda>(bs, s'). Inr (word_of_nat (le_value bs), s'))"

definition read_le_u16 :: "MemoryStream \<Rightarrow> error + (u16 \<times> MemoryStream)" where
  "read_le_u16 s = bind_err (read 2 s) (\<lambda>(bs, s'). Inr (word_of_nat (le_value bs), s'))"

definition read_le_u32 :: "MemoryStream \<Rightarrow> error + (u32 \<times> MemoryStream)" where
  "read_le_u32 s = bind_err (read 4 s) (\<lambda>(bs, s'). Inr (word_of_nat (le_value bs), s'))"

text \<open>
  Modelled from the spec: the writes of the output \<^verbatim>\<open>io::MemoryStream\<close>. The output
  stream of a block is written front to back only, from position 0, and read back
  whole by \<^verbatim>\<open>seek(0).read_to_eof()\<close>, so it is the list of the bytes written so far
  (the constructor argument \<^verbatim>\<open>output_size\<close> only sizes it: the loop writes at least
  that many bytes whenever the block returns); \<^verbatim>\<open>write<u8>\<close> appends one byte and
  \<^verbatim>\<open>write_le<u16>\<close> appends the low byte and then the high byte.
\<close>

definition write_u8 :: "u8 \<Rightarrow> bstr \<Rightarrow> bstr" where
  "write_u8 v out = out @ [v]"

definition write_le_u16 :: "u16 \<Rightarrow> bstr \<Rightarrow> bstr" where
  "write_le_u16 v out = out @ [ucast v, ucast (drop_bit 8 v)]"

subsection \<open>The bitstream reader\<close>

text \<open>
  Modelled from the spec: \<^verbatim>\<open>io::LsbBitStream\<close> (io/lsb\_bit\_stream.h is not among the
  sources). The spec: constructed over a byte span; \<^verbatim>\<open>read(n)\<close> returns an unsigned
  integer assembled least-significant-bit first, bits are drawn from each byte
  starting at its low-order bit, reads may span byte boundaries, and reading past
  the end of the span fails. The stream is the list of the bits not yet read.
\<close>

type_synonym LsbBitStream = "bool list"

text \<open>Modelled from the spec: the constructor, each byte from its low-order bit.\<close>

definition byte_bits :: "u8 \<Rightarrow> bool list" where
  "byte_bits b = map (bit b) [0..<8]"

definition LsbBitStream :: "bstr \<Rightarrow> LsbBitStream" where
  "LsbBitStream input = concat (map byte_bits input)"

text \<open>
  Modelled from the spec: \<^verbatim>\<open>read(n)\<close>; the first bit read is the low-order bit of
  the result.
\<close>

primrec bits_value :: "bool list \<Rightarrow> nat" where
  "bits_value [] = 0"
| "bits_value (b # bs) = of_bool b + 2 * bits_value bs"

definition read_bits :: "nat \<Rightarrow> LsbBitStream \<Rightarrow> error + (u32 \<times> LsbBitStream)" where
  "read_bits n bs =
     (if n \<le> length bs then Inr (word_of_nat (bits_value (take n bs)), drop n bs)
      else Inl BoundsFailure)"

subsection \<open>Header and result\<close>

record NwaHeader =
  channel_count :: nat
  bits_per_sample :: nat
  sample_rate :: nat
  compression_level :: int
  use_run_length :: bool
  block_count :: nat
  uncompressed_size :: nat
  compressed_size :: nat
  sample_count :: nat
  block_size :: nat
  rest_size :: nat

text \<open>\<^verbatim>\<open>res::Audio\<close>, with the four fields the decoder sets.\<close>

record Audio =
  audio_channel_count :: nat
  audio_bits_per_sample :: nat
  audio_sample_rate :: nat
  samples :: bstr

text \<open>\<^verbatim>\<open>io::File\<close>: a byte stream with its cursor, and a path.\<close>

record File =
  stream :: MemoryStream
  path :: string

subsection \<open>decode\_block\<close>

text \<open>
  The local variables of the sample loop of \<^verbatim>\<open>decode_block\<close>. The array
  \<^verbatim>\<open>s16 d[2]\<close> is a pair; \<^verbatim>\<open>current_channel\<close> only ever holds 0 or 1 and
  \<^verbatim>\<open>run_length\<close> only values read from at most 8 bits, so both are naturals.
  \<^verbatim>\<open>decode_block\<close> is called on validated headers only
  (\<^verbatim>\<open>read_compressed_samples\<close>, lines 141--166): the channel count is 1 or 2, so no
  index beyond 1 reaches the array, and \<^verbatim>\<open>bytes_per_sample\<close> is 1 or 2, so the
  division of line 38 is defined.
\<close>

type_synonym predictors = "s16 \<times> s16"

definition d_at :: "predictors \<Rightarrow> nat \<Rightarrow> s16" where
  "d_at dd i = (if i = 0 then fst dd else snd dd)"

definition d_upd :: "predictors \<Rightarrow> nat \<Rightarrow> s16 \<Rightarrow> predictors" where
  "d_upd dd i v = (if i = 0 then (v, snd dd) else (fst dd, v))"

record BlockState =
  bit_stream :: LsbBitStream
  d :: predictors
  current_channel :: nat
  run_length :: nat
  output_stream :: bstr

text \<open>
  Lines 84--90 and 106--112 (the same text in both branches): the masks, the read
  of the \<open>bits\<close>-wide field and the update of \<^verbatim>\<open>d[current_channel]\<close>. The field
  \<open>b\<close> that the bitstream returns is taken to be a \<^verbatim>\<open>u32\<close>; in \<^verbatim>\<open>d[c] -= x\<close> the
  \<^verbatim>\<open>s16\<close> is promoted (sign-extended), the operation is done on 32 bits and the
  result is converted back to \<^verbatim>\<open>s16\<close>.
\<close>

definition update_predictor :: "int \<Rightarrow> int \<Rightarrow> BlockState \<Rightarrow> error + BlockState" where
  "update_predictor bits shift st =
     (let mask1 = (push_bit (nat (bits - 1)) 1 :: u32);
          mask2 = (push_bit (nat (bits - 1)) 1 :: u32) - 1
      in bind_err (read_bits (nat bits) (bit_stream st)) (\<lambda>(b, bs).
           let c = current_channel st;
               old = (scast (d_at (d st) c) :: u32);
               x = push_bit (nat shift) (b AND mask2)
           in if b AND mask1 \<noteq> 0
              then Inr (st\<lparr>bit_stream := bs, d := d_upd (d st) c (ucast (old - x))\<rparr>)
              else Inr (st\<lparr>bit_stream := bs, d := d_upd (d st) c (ucast (old + x))\<rparr>)))"

text \<open>Lines 63--124: the part of the loop body that reads codes.\<close>

definition decode_code :: "NwaHeader \<Rightarrow> BlockState \<Rightarrow> error + BlockState" where
  "decode_code header st =
     (if run_length st \<noteq> 0 then Inr (st\<lparr>run_length := run_length st - 1\<rparr>)
      else bind_err (read_bits 3 (bit_stream st)) (\<lambda>(type, bs1).
        let st1 = st\<lparr>bit_stream := bs1\<rparr> in
        if type = 7 then
          bind_err (read_bits 1 bs1) (\<lambda>(flag, bs2).
            let st2 = st1\<lparr>bit_stream := bs2\<rparr> in
            if flag \<noteq> 0 then Inr (st2\<lparr>d := d_upd (d st2) (current_channel st2) 0\<rparr>)
            else if compression_level header < 3
              then update_predictor (8 - compression_level header)
                     (9 + compression_level header) st2
              else update_predictor 8 9 st2)
        else if uint type > 0 then
          (if compression_level header \<ge> 3
           then update_predictor (3 + compression_level header) (1 + uint type) st1
           else update_predictor (5 - compression_level header)
                  (2 + uint type + compression_level header) st1)
        else if use_run_length header then
          bind_err (read_bits 1 bs1) (\<lambda>(r1, bs2).
            if r1 = 1 then
              bind_err (read_bits 2 bs2) (\<lambda>(r2, bs3).
                if r2 = 3 then
                  bind_err (read_bits 8 bs3) (\<lambda>(r3, bs4).
                    Inr (st1\<lparr>bit_stream := bs4, run_length := unat r3\<rparr>))
                else Inr (st1\<lparr>bit_stream := bs3, run_length := unat r2\<rparr>))
            else Inr (st1\<lparr>bit_stream := bs2, run_length := unat r1\<rparr>))
        else Inr st1))"

text \<open>Lines 126--132: emit the current predictor and toggle the channel.\<close>

definition emit_sample :: "NwaHeader \<Rightarrow> BlockState \<Rightarrow> BlockState" where
  "emit_sample header st =
     (let v = d_at (d st) (current_channel st);
          out = (if bits_per_sample header = 8
                 then write_u8 (ucast v) (output_stream st)
                 else write_le_u16 v (output_stream st));
          c = (if channel_count header = 2 then current_channel st XOR 1
               else current_channel st)
      in st\<lparr>output_stream := out, current_channel := c\<rparr>)"

text \<open>One run of the body of the sample loop (lines 62--133).\<close>

definition decode_sample :: "NwaHeader \<Rightarrow> BlockState \<Rightarrow> error + BlockState" where
  "decode_sample header st =
     bind_err (decode_code header st) (\<lambda>st'. Inr (emit_sample header st'))"

text \<open>\<^verbatim>\<open>offsets.at(i)\<close>: bounds-checked access.\<close>

definition vec_at :: "'a list \<Rightarrow> nat \<Rightarrow> error + 'a" where
  "vec_at xs i = (if i < length xs then Inr (xs ! i) else Inl OutOfRange)"

text \<open>Lines 47--53: one raw sample per channel seeds the predictors.\<close>

definition read_seed ::
  "NwaHeader \<Rightarrow> nat \<Rightarrow> predictors \<times> MemoryStream \<Rightarrow> error + (predictors \<times> MemoryStream)" where
  "read_seed header i = (\<lambda>(dd, s).
     if bits_per_sample header = 8
     then bind_err (read_u8 s) (\<lambda>(v, s'). Inr (d_upd dd i (ucast v), s'))
     else bind_err (read_le_u16 s) (\<lambda>(v, s'). Inr (d_upd dd i v, s')))"

text \<open>
  \<^verbatim>\<open>decode_block\<close>. The array \<^verbatim>\<open>d\<close> is declared without an initialiser: what it
  holds before the seeding loop is the parameter \<open>d_uninit\<close>. The function returns
  the block's bytes and the input stream as the block leaves it.
\<close>

definition decode_block ::
  "predictors \<Rightarrow> NwaHeader \<Rightarrow> nat \<Rightarrow> MemoryStream \<Rightarrow> u32 list \<Rightarrow> error + (bstr \<times> MemoryStream)" where
  "decode_block d_uninit header current_block input_stream offsets =
     (let bytes_per_sample = drop_bit 3 (bits_per_sample header);
          current_block_size =
            (if current_block \<noteq> size_t_sub (block_count header) 1
             then size_t_mul (block_size header) bytes_per_sample
             else size_t_mul (rest_size header) bytes_per_sample);
          output_size = current_block_size div bytes_per_sample
      in bind_err
           (if current_block \<noteq> size_t_sub (length offsets) 1
            then bind_err (vec_at offsets (current_block + 1)) (\<lambda>next_offset.
                 bind_err (vec_at offsets current_block) (\<lambda>offset.
                   Inr (unat (next_offset - offset))))
            else bind_err (vec_at offsets current_block) (\<lambda>offset.
                   Inr (size_t_sub (stream_size input_stream) (unat offset))))
           (\<lambda>input_size.
         bind_err (vec_at offsets current_block) (\<lambda>offset.
         bind_err (for_range [0..<channel_count header] (read_seed header)
                     (d_uninit, seek (unat offset) input_stream)) (\<lambda>(d0, s1).
         bind_err (read (size_t_sub input_size
                      (size_t_mul bytes_per_sample (channel_count header))) s1) (\<lambda>(input, s2).
         bind_err (for_range [0..<output_size] (\<lambda>i. decode_sample header)
                     \<lparr>bit_stream = LsbBitStream input, d = d0, current_channel = 0,
                      run_length = 0, output_stream = []\<rparr>) (\<lambda>st.
         Inr (output_stream st, s2)))))))"

subsection \<open>read\_compressed\_samples, read\_uncompressed\_samples, decode\_impl\<close>

text \<open>Lines 170--171: the offset table.\<close>

definition read_offset ::
  "nat \<Rightarrow> u32 list \<times> MemoryStream \<Rightarrow> error + (u32 list \<times> MemoryStream)" where
  "read_offset i = (\<lambda>(offsets, s).
     bind_err (read_le_u32 s) (\<lambda>(v, s'). Inr (offsets @ [v], s')))"

text \<open>
  Lines 168--176 of \<^verbatim>\<open>read_compressed_samples\<close>: skip the reserved field, read the
  offset table, decode the blocks in index order and concatenate their bytes;
  \<open>d_uninit i\<close> is what the uninitialised array of the call for block \<open>i\<close> holds.
\<close>

definition decode_blocks ::
  "(nat \<Rightarrow> predictors) \<Rightarrow> NwaHeader \<Rightarrow> u32 list \<Rightarrow> nat
     \<Rightarrow> bstr \<times> MemoryStream \<Rightarrow> error + (bstr \<times> MemoryStream)" where
  "decode_blocks d_uninit header offsets i = (\<lambda>(out, s).
     bind_err (decode_block (d_uninit i) header i s offsets) (\<lambda>(blk, s'). Inr (out @ blk, s')))"

definition read_blocks ::
  "(nat \<Rightarrow> predictors) \<Rightarrow> MemoryStream \<Rightarrow> NwaHeader \<Rightarrow> error + bstr" where
  "read_blocks d_uninit input_stream header =
     bind_err (for_range [0..<block_count header] read_offset
                 ([], skip 4 input_stream)) (\<lambda>(offsets, s).
     bind_err (for_range [0..<block_count header] (decode_blocks d_uninit header offsets)
                 ([], s)) (\<lambda>(out, s'). Inr out))"

text \<open>\<^verbatim>\<open>read_compressed_samples\<close>: the checks of lines 141--166, then the blocks.\<close>

definition read_compressed_samples ::
  "(nat \<Rightarrow> predictors) \<Rightarrow> MemoryStream \<Rightarrow> NwaHeader \<Rightarrow> error + bstr" where
  "read_compressed_samples d_uninit input_stream header =
     (if compression_level header < 0 \<or> compression_level header > 5
        then Inl (NotSupportedError ''Unsupported compression level'')
      else if channel_count header \<noteq> 1 \<and> channel_count header \<noteq> 2
        then Inl (NotSupportedError ''Unsupported channel count'')
      else if bits_per_sample header \<noteq> 8 \<and> bits_per_sample header \<noteq> 16
        then Inl (NotSupportedError ''Unsupported bits per sample'')
      else if block_count header = 0
        then Inl (CorruptDataError ''No blocks found'')
      else if compressed_size header = 0
        then Inl (CorruptDataError ''No data found'')
      else if uncompressed_size header
              \<noteq> size_t_mul (sample_count header) (bits_per_sample header) div 8
        then Inl BadDataSizeError
      else if sample_count header
              \<noteq> size_t_add (size_t_mul (size_t_sub (block_count header) 1) (block_size header))
                  (rest_size header)
        then Inl (CorruptDataError ''Bad sample count'')
      else read_blocks d_uninit input_stream header)"

definition read_uncompressed_samples :: "MemoryStream \<Rightarrow> NwaHeader \<Rightarrow> error + bstr" where
  "read_uncompressed_samples input_stream header =
     bind_err (read (uncompressed_size header) input_stream) (\<lambda>(bs, s'). Inr bs)"

text \<open>Lines 196--207 of \<^verbatim>\<open>decode_impl\<close>: the eleven header fields, in order.\<close>

definition read_header :: "MemoryStream \<Rightarrow> error + (NwaHeader \<times> MemoryStream)" where
  "read_header s0 =
     bind_err (read_le_u16 s0) (\<lambda>(f1, s1).
     bind_err (read_le_u16 s1) (\<lambda>(f2, s2).
     bind_err (read_le_u32 s2) (\<lambda>(f3, s3).
     bind_err (read_le_u32 s3) (\<lambda>(f4, s4).
     bind_err (read_le_u32 s4) (\<lambda>(f5, s5).
     bind_err (read_le_u32 s5) (\<lambda>(f6, s6).
     bind_err (read_le_u32 s6) (\<lambda>(f7, s7).
     bind_err (read_le_u32 s7) (\<lambda>(f8, s8).
     bind_err (read_le_u32 s8) (\<lambda>(f9, s9).
     bind_err (read_le_u32 s9) (\<lambda>(f10, s10).
     bind_err (read_le_u32 s10) (\<lambda>(f11, s11).
       Inr (\<lparr>channel_count = unat f1, bits_per_sample = unat f2, sample_rate = unat f3,
             compression_level = sint f4, use_run_length = (f5 \<noteq> 0),
             block_count = unat f6, uncompressed_size = unat f7,
             compressed_size = unat f8, sample_count = unat f9,
             block_size = unat f10, rest_size = unat f11\<rparr>, s11))))))))))))"

text \<open>
  \<^verbatim>\<open>NwaAudioDecoder::decode_impl\<close>. The logger is not used. The file's stream is
  rewound and read to its end into a fresh memory stream.
\<close>

definition decode_impl :: "(nat \<Rightarrow> predictors) \<Rightarrow> File \<Rightarrow> error + Audio" where
  "decode_impl d_uninit input_file =
     (let input_stream = \<lparr>buffer = fst (read_to_eof (seek 0 (stream input_file))), pos = 0\<rparr>
      in bind_err (read_header input_stream) (\<lambda>(header, s).
         bind_err (if compression_level header = - 1
                   then read_uncompressed_samples s header
                   else read_compressed_samples d_uninit s header) (\<lambda>smp.
         Inr \<lparr>audio_channel_count = channel_count header,
              audio_bits_per_sample = bits_per_sample header,
              audio_sample_rate = sample_rate header,
              samples = smp\<rparr>)))"

subsection \<open>The spec's descriptions, for comparison with the code\<close>

text \<open>
  The spec's rule for the width of the residual field and for the shift, by
  compression level and type code (1 to 7), and its sign-magnitude update of a
  16-bit predictor.
\<close>

definition spec_residual_bits :: "int \<Rightarrow> nat \<Rightarrow> int" where
  "spec_residual_bits level t =
     (if t = 7 then (if level < 3 then 8 - level else 8)
      else if level \<ge> 3 then 3 + level else 5 - level)"

definition spec_residual_shift :: "int \<Rightarrow> nat \<Rightarrow> int" where
  "spec_residual_shift level t =
     (if t = 7 then (if level < 3 then 9 + level else 9)
      else if level \<ge> 3 then 1 + int t else 2 + int t + level)"

definition spec_sign_magnitude :: "s16 \<Rightarrow> bool \<Rightarrow> nat \<Rightarrow> nat \<Rightarrow> s16" where
  "spec_sign_magnitude v neg magnitude shift =
     (if neg then v - word_of_nat (magnitude * 2 ^ shift)
      else v + word_of_nat (magnitude * 2 ^ shift))"

text \<open>
  Block \<open>i\<close> as the spec describes it: the length of its compressed span (the
  difference of two 32-bit offsets, or what is left of the buffer for the last
  block), the span, and the predictor seeds at the head of the span; the entry of an
  absent second channel keeps what the array held.
\<close>

definition spec_input_size :: "bstr \<Rightarrow> u32 list \<Rightarrow> nat \<Rightarrow> nat" where
  "spec_input_size buf offsets i =
     (if i \<noteq> length offsets - 1 then unat (offsets ! (i + 1) - offsets ! i)
      else length buf - unat (offsets ! i))"

definition spec_span :: "bstr \<Rightarrow> u32 list \<Rightarrow> nat \<Rightarrow> bstr" where
  "spec_span buf offsets i = take (spec_input_size buf offsets i) (drop (unat (offsets ! i)) buf)"

definition spec_seed :: "NwaHeader \<Rightarrow> bstr \<Rightarrow> nat \<Rightarrow> s16" where
  "spec_seed header span k =
     (if bits_per_sample header = 8 then ucast (span ! k)
      else word_of_nat (le_value (take 2 (drop (2 * k) span))))"

definition spec_seeds :: "NwaHeader \<Rightarrow> bstr \<Rightarrow> predictors \<Rightarrow> predictors" where
  "spec_seeds header span d_uninit =
     (spec_seed header span 0,
      if channel_count header = 2 then spec_seed header span 1 else snd d_uninit)"

text \<open>
  The residual update on unbounded integers: the predictor's signed value plus or
  minus the magnitude shifted left by the shift.
\<close>

definition exact_residual :: "s16 \<Rightarrow> bool \<Rightarrow> nat \<Rightarrow> nat \<Rightarrow> int" where
  "exact_residual v neg magnitude shift =
     (if neg then sint v - int magnitude * 2 ^ shift else sint v + int magnitude * 2 ^ shift)"

subsection \<open>Named parts of decode\_block\<close>

text \<open>Lines 34--38: the number of samples of a block.\<close>

definition block_output_size :: "NwaHeader \<Rightarrow> nat \<Rightarrow> nat" where
  "block_output_size header current_block =
     (if current_block \<noteq> size_t_sub (block_count header) 1
      then size_t_mul (block_size header) (drop_bit 3 (bits_per_sample header))
      else size_t_mul (rest_size header) (drop_bit 3 (bits_per_sample header)))
       div drop_bit 3 (bits_per_sample header)"

text \<open>
  The bytes that lines 126--129 write for a predictor value and their number, the
  channel index that lines 131--132 leave, and the channel index after \<open>n\<close> samples.
\<close>

definition sample_of :: "NwaHeader \<Rightarrow> s16 \<Rightarrow> bstr" where
  "sample_of header v =
     (if bits_per_sample header = 8 then [ucast v] else [ucast v, ucast (drop_bit 8 v)])"

definition sample_bytes :: "NwaHeader \<Rightarrow> nat" where
  "sample_bytes header = (if bits_per_sample header = 8 then 1 else 2)"

definition next_channel :: "NwaHeader \<Rightarrow> nat \<Rightarrow> nat" where
  "next_channel header c = (if channel_count header = 2 then c XOR 1 else c)"

primrec channel_after :: "NwaHeader \<Rightarrow> nat \<Rightarrow> nat \<Rightarrow> nat" where
  "channel_after header 0 c = c"
| "channel_after header (Suc n) c = channel_after header n (next_channel header c)"

text \<open>
  The bytes of \<open>n\<close> consecutive samples that are emitted from an unchanging predictor
  array \<open>dd\<close>, starting at channel \<open>c\<close>.
\<close>

primrec held_samples :: "NwaHeader \<Rightarrow> predictors \<Rightarrow> nat \<Rightarrow> nat \<Rightarrow> bstr" where
  "held_samples header dd c 0 = []"
| "held_samples header dd c (Suc n) =
     sample_of header (d_at dd c) @ held_samples header dd (next_channel header c) n"

subsection \<open>Predicates of the proofs\<close>

text \<open>
  What reading the fields as \<^verbatim>\<open>u16\<close> and \<^verbatim>\<open>u32\<close> guarantees about a header.
\<close>

definition header_in_range :: "NwaHeader \<Rightarrow> bool" where
  "header_in_range h \<longleftrightarrow>
     channel_count h < 2 ^ 16 \<and> bits_per_sample h < 2 ^ 16 \<and> sample_rate h < 2 ^ 32 \<and>
     block_count h < 2 ^ 32 \<and> uncompressed_size h < 2 ^ 32 \<and> compressed_size h < 2 ^ 32 \<and>
     sample_count h < 2 ^ 32 \<and> block_size h < 2 ^ 32 \<and> rest_size h < 2 ^ 32"

text \<open>
  One step of a predictor array at channel \<open>c\<close>: the entry of \<open>c\<close> is reset to 0 or
  moved by a magnitude below 128 shifted left by at most 11, in 16-bit arithmetic;
  the other entry stays.
\<close>

definition predictor_step :: "predictors \<Rightarrow> nat \<Rightarrow> predictors \<Rightarrow> bool" where
  "predictor_step dd c dd' \<longleftrightarrow>
     (\<exists>w. dd' = d_upd dd c w \<and>
        (w = 0 \<or> (\<exists>m k neg. m < 128 \<and> k \<le> 11 \<and>
                     w = spec_sign_magnitude (d_at dd c) neg m k)))"

text \<open>The loop state with the second predictor replaced.\<close>

definition set_other :: "s16 \<Rightarrow> BlockState \<Rightarrow> BlockState" where
  "set_other y st = st\<lparr>d := (fst (d st), y)\<rparr>"

subsection \<open>Example inputs\<close>

text \<open>The uninitialised predictor arrays of the example runs.\<close>

definition d_zero :: "nat \<Rightarrow> predictors" where
  "d_zero i = (0, 0)"

text \<open>
  A 40-byte header that declares three channels and no blocks (level 0, 16 bits).
\<close>

definition three_channel_file :: File where
  "three_channel_file =
     \<lparr>stream = \<lparr>buffer = [3,0, 16,0, 0x44,0xAC,0,0, 0,0,0,0, 0,0,0,0, 0,0,0,0, 2,0,0,0,
                           3,0,0,0, 1,0,0,0, 1,0,0,0, 1,0,0,0], pos = 0\<rparr>,
      path = ''a.nwa''\<rparr>"

text \<open>
  A complete mono 8-bit input at level 0 with two blocks, of two samples and of one
  sample; every code of its bitstreams is 0. Its header and its offset table.
\<close>

definition two_block_file :: File where
  "two_block_file =
     \<lparr>stream = \<lparr>buffer = [1,0, 8,0, 0x44,0xAC,0,0, 0,0,0,0, 0,0,0,0, 2,0,0,0, 3,0,0,0,
                           56,0,0,0, 3,0,0,0, 2,0,0,0, 1,0,0,0,
                           0,0,0,0, 52,0,0,0, 54,0,0,0,
                           10, 0, 20, 0], pos = 0\<rparr>,
      path = ''b.nwa''\<rparr>"

definition two_block_header :: NwaHeader where
  "two_block_header =
     \<lparr>channel_count = 1, bits_per_sample = 8, sample_rate = 44100,
      compression_level = 0, use_run_length = False, block_count = 2,
      uncompressed_size = 3, compressed_size = 56, sample_count = 3,
      block_size = 2, rest_size = 1\<rparr>"

definition two_block_offsets :: "u32 list" where
  "two_block_offsets = [52, 54]"

text \<open>
  A stored input (level \<open>-1\<close>) that declares three channels, 12 bits per sample,
  no blocks, and 3 bytes of samples; four bytes follow the header.
\<close>

definition stored_file :: File where
  "stored_file =
     \<lparr>stream = \<lparr>buffer = [3,0, 12,0, 0x44,0xAC,0,0, 0xFF,0xFF,0xFF,0xFF, 0,0,0,0, 0,0,0,0,
                           3,0,0,0, 0,0,0,0, 0,0,0,0, 0,0,0,0, 0,0,0,0,
                           7, 8, 9, 10], pos = 0\<rparr>,
      path = ''c.nwa''\<rparr>"

text \<open>
  A stored input that declares 4 bytes of samples but holds only two bytes after
  the header.
\<close>

definition truncated_stored_file :: File where
  "truncated_stored_file =
     \<lparr>stream = \<lparr>buffer = [1,0, 8,0, 0x44,0xAC,0,0, 0xFF,0xFF,0xFF,0xFF, 0,0,0,0, 0,0,0,0,
                           4,0,0,0, 0,0,0,0, 0,0,0,0, 0,0,0,0, 0,0,0,0,
                           7, 8], pos = 0\<rparr>,
      path = ''d.nwa''\<rparr>"

text \<open>
  A header for runs of the sample loop alone: mono, 8 bits, run-length mode on, at a
  given compression level; the loop's state at the start of a block whose only
  seeded predictor is \<open>v\<close> and whose bitstream holds the bits \<open>bs\<close>; and a loop
  state with a pending run of 3 and the predictors 10 and 20.
\<close>

definition level_header :: "int \<Rightarrow> NwaHeader" where
  "level_header level =
     \<lparr>channel_count = 1, bits_per_sample = 8, sample_rate = 44100,
      compression_level = level, use_run_length = True, block_count = 1,
      uncompressed_size = 8, compressed_size = 8, sample_count = 8,
      block_size = 8, rest_size = 8\<rparr>"

definition sample_state :: "s16 \<Rightarrow> bool list \<Rightarrow> BlockState" where
  "sample_state v bs =
     \<lparr>bit_stream = bs, d = (v, 0), current_channel = 0, run_length = 0, output_stream = []\<rparr>"

definition pending_state :: BlockState where
  "pending_state =
     \<lparr>bit_stream = [True, True, True, True], d = (10, 20), current_channel = 0,
      run_length = 3, output_stream = []\<rparr>"

text \<open>
  A complete mono 8-bit input at level 0 with run-length mode on and one block of
  six samples, seeded with 100. Its bitstream holds: type 1 with magnitude 2 and
  clear sign (shift 3); type 0 with the run flag, the 2-bit field 3 and the 8-bit
  extension 3; type 7 with the reset bit.
\<close>

definition run_length_file :: File where
  "run_length_file =
     \<lparr>stream = \<lparr>buffer = [1,0, 8,0, 0x44,0xAC,0,0, 0,0,0,0, 1,0,0,0, 1,0,0,0, 6,0,0,0,
                           5,0,0,0, 6,0,0,0, 6,0,0,0, 6,0,0,0,
                           0,0,0,0, 48,0,0,0,
                           100, 17, 248, 192, 3], pos = 0\<rparr>,
      path = ''e.nwa''\<rparr>"

text \<open>
  A complete stereo 8-bit input at level 0 with run-length mode on and one block of
  four samples, seeded with 10 and 20; its bitstream holds a single type 0 code with
  the run flag, the 2-bit field 3 and the 8-bit extension 3.
\<close>

definition stereo_run_file :: File where
  "stereo_run_file =
     \<lparr>stream = \<lparr>buffer = [2,0, 8,0, 0x44,0xAC,0,0, 0,0,0,0, 1,0,0,0, 1,0,0,0, 4,0,0,0,
                           4,0,0,0, 4,0,0,0, 4,0,0,0, 4,0,0,0,
                           0,0,0,0, 48,0,0,0,
                           10, 20, 248, 0], pos = 0\<rparr>,
      path = ''f.nwa''\<rparr>"

text \<open>
  A complete stereo 8-bit input at level 0 with run-length mode on and one block of
  five samples, seeded with 100 and 20. Its bitstream holds: type 1 with magnitude 2
  and clear sign (shift 3), which updates channel 0 to 116; then type 0 with the run
  flag, the 2-bit field 3 and the 8-bit extension 3.
\<close>

definition stereo_update_file :: File where
  "stereo_update_file =
     \<lparr>stream = \<lparr>buffer = [2,0, 8,0, 0x44,0xAC,0,0, 0,0,0,0, 1,0,0,0, 1,0,0,0, 5,0,0,0,
                           5,0,0,0, 5,0,0,0, 5,0,0,0, 5,0,0,0,
                           0,0,0,0, 48,0,0,0,
                           100, 20, 17, 248, 0], pos = 0\<rparr>,
      path = ''g.nwa''\<rparr>"

text \<open>
  The loop state of a stereo block on channel 1, after channel 0 was updated to 116
  while channel 1 holds 20, with the bits \<open>bs\<close> left in the bitstream.
\<close>

definition stereo_state :: "bool list \<Rightarrow> BlockState" where
  "stereo_state bs =
     \<lparr>bit_stream = bs, d = (116, 20), current_channel = 1, run_length = 0,
      output_stream = []\<rparr>"

section \<open>Auxiliary lemmas\<close>

lemma bind_err_Inl [simp]: "bind_err (Inl e) f = Inl e"
  by (simp add: bind_err_def)

lemma bind_err_Inr [simp]: "bind_err (Inr x) f = f x"
  by (simp add: bind_err_def)

lemma bind_err_if:
  "bind_err (if c then Inl e else m) f = (if c then Inl e else bind_err m f)"
  by simp

lemma bind_err_eq_Inr:
  "bind_err m f = Inr y \<longleftrightarrow> (\<exists>x. m = Inr x \<and> f x = Inr y)"
  by (cases m) simp_all

lemma read_le_u16_eq:
  "read_le_u16 s =
     (if pos s + 2 \<le> length (buffer s)
      then Inr (word_of_nat (le_value (take 2 (drop (pos s) (buffer s)))), s\<lparr>pos := pos s + 2\<rparr>)
      else Inl BoundsFailure)"
  by (simp add: read_le_u16_def read_def)

lemma read_le_u32_eq:
  "read_le_u32 s =
     (if pos s + 4 \<le> length (buffer s)
      then Inr (word_of_nat (le_value (take 4 (drop (pos s) (buffer s)))), s\<lparr>pos := pos s + 4\<rparr>)
      else Inl BoundsFailure)"
  by (simp add: read_le_u32_def read_def)

lemma read_u8_eq:
  "read_u8 s =
     (if pos s + 1 \<le> length (buffer s)
      then Inr (word_of_nat (le_value (take 1 (drop (pos s) (buffer s)))), s\<lparr>pos := pos s + 1\<rparr>)
      else Inl BoundsFailure)"
  by (simp add: read_u8_def read_def)

lemma read_le_u16_Inr:
  "read_le_u16 s = Inr (v, s') \<Longrightarrow> s' = s\<lparr>pos := pos s + 2\<rparr>"
  by (simp add: read_le_u16_eq split: if_splits)

lemma read_le_u32_Inr:
  "read_le_u32 s = Inr (v, s') \<Longrightarrow> s' = s\<lparr>pos := pos s + 4\<rparr>"
  by (simp add: read_le_u32_eq split: if_splits)

lemma unat_u16_bound: "unat (w :: u16) < 65536"
  using unsigned_less [of w, where ?'a = nat] by simp

lemma unat_u32_bound: "unat (w :: u32) < 4294967296"
  using unsigned_less [of w, where ?'a = nat] by simp

lemma read_header_Inr:
  assumes "read_header s0 = Inr (h, s)"
  shows "header_in_range h \<and> s = s0\<lparr>pos := pos s0 + 40\<rparr>"
proof -
  from assms obtain f1 f2 f3 f6 f7 f8 f9 f10 f11 :: u32 and g1 g2 :: u16 and f4 f5 :: u32 where
    h: "h = \<lparr>channel_count = unat g1, bits_per_sample = unat g2, sample_rate = unat f3,
             compression_level = sint f4, use_run_length = (f5 \<noteq> 0),
             block_count = unat f6, uncompressed_size = unat f7,
             compressed_size = unat f8, sample_count = unat f9,
             block_size = unat f10, rest_size = unat f11\<rparr>"
    and s: "s = s0\<lparr>pos := pos s0 + 40\<rparr>"
    unfolding read_header_def
    by (auto simp: bind_err_eq_Inr dest!: read_le_u16_Inr read_le_u32_Inr)
  show ?thesis
    unfolding h header_in_range_def using s
    by (simp add: unat_u16_bound unat_u32_bound)
qed

lemma size_t_mul_small: "a < 2 ^ 32 \<Longrightarrow> b < 2 ^ 32 \<Longrightarrow> size_t_mul a b = a * b"
proof -
  assume a: "a < 2 ^ 32" and b: "b < 2 ^ 32"
  have "a * b < 2 ^ 32 * 2 ^ 32"
    using a b by (intro mult_strict_mono') simp_all
  then show ?thesis by (simp add: size_t_mul_def)
qed

lemma size_t_sub_le:
  assumes "b \<le> a" "a < 2 ^ 64"
  shows "size_t_sub a b = a - b"
proof -
  have ma: "a mod 2 ^ 64 = a" and mb: "b mod 2 ^ 64 = b"
    using assms by simp_all
  have "a + 2 ^ 64 - b = 2 ^ 64 + (a - b)"
    using assms by linarith
  moreover have "a - b < 2 ^ 64"
    using assms by linarith
  then have "(2 ^ 64 + (a - b)) mod 2 ^ 64 = a - b"
    by (metis mod_add_self1 mod_less)
  ultimately show ?thesis
    unfolding size_t_sub_def ma mb by presburger
qed

lemma size_t_sub_wrap:
  assumes "a < b" "b < 2 ^ 64"
  shows "size_t_sub a b = a + 2 ^ 64 - b"
  using assms by (simp add: size_t_sub_def)

lemma size_t_sample_count:
  assumes "0 < bc" "bc < 2 ^ 32" "bs < 2 ^ 32" "r < 2 ^ 32"
  shows "size_t_add (size_t_mul (size_t_sub bc (Suc 0)) bs) r = (bc - Suc 0) * bs + r"
proof -
  have 1: "size_t_sub bc (Suc 0) = bc - Suc 0"
    using assms by (intro size_t_sub_le) simp_all
  have 2: "size_t_mul (bc - Suc 0) bs = (bc - Suc 0) * bs"
    using assms by (intro size_t_mul_small) simp_all
  have "(bc - Suc 0) * bs \<le> (2 ^ 32 - 1) * (2 ^ 32 - 1)"
    using assms by (intro mult_le_mono) simp_all
  then have "(bc - Suc 0) * bs + r < 2 ^ 64"
    using assms(4) by simp
  then show ?thesis
    unfolding 1 2 size_t_add_def by simp
qed

lemma decode_impl_compressed:
  assumes "read_header \<lparr>buffer = buffer (stream f), pos = 0\<rparr> = Inr (h, s)"
    and "compression_level h \<noteq> - 1"
  shows "decode_impl du f =
     (if compression_level h < 0 \<or> 5 < compression_level h
        then Inl (NotSupportedError ''Unsupported compression level'')
      else if channel_count h \<notin> {1, 2}
        then Inl (NotSupportedError ''Unsupported channel count'')
      else if bits_per_sample h \<notin> {8, 16}
        then Inl (NotSupportedError ''Unsupported bits per sample'')
      else if block_count h = 0
        then Inl (CorruptDataError ''No blocks found'')
      else if compressed_size h = 0
        then Inl (CorruptDataError ''No data found'')
      else if uncompressed_size h \<noteq> sample_count h * bits_per_sample h div 8
        then Inl BadDataSizeError
      else if sample_count h \<noteq> (block_count h - 1) * block_size h + rest_size h
        then Inl (CorruptDataError ''Bad sample count'')
      else bind_err (read_blocks du s h) (\<lambda>smp.
             Inr \<lparr>audio_channel_count = channel_count h,
                  audio_bits_per_sample = bits_per_sample h,
                  audio_sample_rate = sample_rate h, samples = smp\<rparr>))"
proof -
  have r: "header_in_range h"
    using read_header_Inr [OF assms(1)] by simp
  have m: "size_t_mul (sample_count h) (bits_per_sample h) = sample_count h * bits_per_sample h"
    using r by (simp add: header_in_range_def size_t_mul_small)
  have c: "block_count h \<noteq> 0 \<Longrightarrow>
    size_t_add (size_t_mul (size_t_sub (block_count h) 1) (block_size h)) (rest_size h)
      = (block_count h - 1) * block_size h + rest_size h"
    using r size_t_sample_count [of "block_count h" "block_size h" "rest_size h"]
    by (simp add: header_in_range_def)
  have i: "channel_count h \<notin> {1, 2} \<longleftrightarrow> channel_count h \<noteq> 1 \<and> channel_count h \<noteq> 2"
    "bits_per_sample h \<notin> {8, 16} \<longleftrightarrow> bits_per_sample h \<noteq> 8 \<and> bits_per_sample h \<noteq> 16"
    by simp_all
  have "decode_impl du f =
    bind_err (read_compressed_samples du s h) (\<lambda>smp.
             Inr \<lparr>audio_channel_count = channel_count h,
                  audio_bits_per_sample = bits_per_sample h,
                  audio_sample_rate = sample_rate h, samples = smp\<rparr>)"
    using assms by (simp add: decode_impl_def read_to_eof_def seek_def)
  also have "read_compressed_samples du s h =
     (if compression_level h < 0 \<or> 5 < compression_level h
        then Inl (NotSupportedError ''Unsupported compression level'')
      else if channel_count h \<notin> {1, 2}
        then Inl (NotSupportedError ''Unsupported channel count'')
      else if bits_per_sample h \<notin> {8, 16}
        then Inl (NotSupportedError ''Unsupported bits per sample'')
      else if block_count h = 0
        then Inl (CorruptDataError ''No blocks found'')
      else if compressed_size h = 0
        then Inl (CorruptDataError ''No data found'')
      else if uncompressed_size h \<noteq> sample_count h * bits_per_sample h div 8
        then Inl BadDataSizeError
      else if sample_count h \<noteq> (block_count h - 1) * block_size h + rest_size h
        then Inl (CorruptDataError ''Bad sample count'')
      else read_blocks du s h)"
  proof (cases "block_count h = 0")
    case True
    then show ?thesis
      unfolding read_compressed_samples_def m i by simp
  next
    case False
    show ?thesis
      unfolding read_compressed_samples_def m i c [OF False] by (rule refl)
  qed
  finally show ?thesis
    by (simp only: bind_err_if)
qed

lemma for_range_sum:
  assumes "\<And>i s s'. i \<in> set xs \<Longrightarrow> body i s = Inr s' \<Longrightarrow> f s' = f s + g i"
    and "for_range xs body s = Inr s'"
  shows "f s' = f s + (sum_list (map g xs) :: nat)"
  using assms
proof (induction xs arbitrary: s)
  case Nil
  then show ?case by simp
next
  case (Cons x xs)
  from Cons.prems(2) obtain s1 where 1: "body x s = Inr s1" and 2: "for_range xs body s1 = Inr s'"
    by (auto simp: bind_err_eq_Inr)
  have "f s1 = f s + g x"
    using Cons.prems(1) [OF _ 1] by simp
  moreover have "f s' = f s1 + sum_list (map g xs)"
    using Cons.IH [OF _ 2] Cons.prems(1) by simp
  ultimately show ?case by simp
qed

lemma update_predictor_frame:
  assumes "update_predictor bits shift st = Inr st'"
  shows "output_stream st' = output_stream st \<and> current_channel st' = current_channel st
         \<and> run_length st' = run_length st"
  using assms
  by (auto simp: update_predictor_def Let_def bind_err_eq_Inr split: if_splits)

lemma decode_code_frame:
  assumes "decode_code header st = Inr st'"
  shows "output_stream st' = output_stream st \<and> current_channel st' = current_channel st"
  using assms
  by (auto simp: decode_code_def Let_def bind_err_eq_Inr
           split: if_splits dest!: update_predictor_frame)

lemma emit_sample_length:
  "length (output_stream (emit_sample header st)) = length (output_stream st) + sample_bytes header"
  by (simp add: emit_sample_def Let_def write_u8_def write_le_u16_def sample_bytes_def)

lemma decode_sample_length:
  assumes "decode_sample header st = Inr st'"
  shows "length (output_stream st') = length (output_stream st) + sample_bytes header"
  using assms
  by (auto simp: decode_sample_def bind_err_eq_Inr emit_sample_length dest!: decode_code_frame)

lemma decode_samples_length:
  assumes "for_range [0..<n] (\<lambda>i. decode_sample header) st = Inr st'"
  shows "length (output_stream st') = length (output_stream st) + n * sample_bytes header"
  using for_range_sum [where f = "\<lambda>s. length (output_stream s)" and g = "\<lambda>i. sample_bytes header",
      OF _ assms]
  by (simp add: decode_sample_length sum_list_triv)

lemma decode_block_length:
  assumes "decode_block du header i s offsets = Inr (blk, s')"
    and "bits_per_sample header = 8 \<or> bits_per_sample header = 16"
    and "0 < block_count header" "block_count header < 2 ^ 32"
    and "block_size header < 2 ^ 32" "rest_size header < 2 ^ 32"
  shows "length blk =
     (if i \<noteq> block_count header - 1 then block_size header else rest_size header)
       * (bits_per_sample header div 8)"
proof -
  let ?bps = "bits_per_sample header div 8"
  let ?n = "if i \<noteq> block_count header - 1 then block_size header else rest_size header"
  have bps: "drop_bit 3 (bits_per_sample header) = ?bps"
    by (simp add: drop_bit_eq_div)
  have sb: "sample_bytes header = ?bps" and pos: "0 < ?bps" and small: "?bps < 2 ^ 32"
    using assms(2) by (auto simp: sample_bytes_def)
  have last: "size_t_sub (block_count header) 1 = block_count header - 1"
    using assms(3,4) by (intro size_t_sub_le) simp_all
  have n: "?n < 2 ^ 32"
    using assms(5,6) by simp
  have out: "(if i \<noteq> size_t_sub (block_count header) 1
              then size_t_mul (block_size header) ?bps
              else size_t_mul (rest_size header) ?bps) div ?bps = ?n"
    unfolding last using assms(5,6) small pos by (simp add: size_t_mul_small)
  from assms(1) obtain st0 st where
    loop: "for_range [0..<?n] (\<lambda>i. decode_sample header) st0 = Inr st" 
    and start: "output_stream st0 = []" and blk: "blk = output_stream st"
    unfolding decode_block_def Let_def bps out
    by (auto simp: bind_err_eq_Inr)
  show ?thesis
    using decode_samples_length [OF loop] start blk sb by simp
qed

lemma block_sum:
  assumes "0 < n"
  shows "(\<Sum>i\<leftarrow>[0..<n]. (if i \<noteq> n - 1 then b else r) * k) = ((n - 1) * b + r) * (k :: nat)"
proof -
  from assms obtain m where n: "n = Suc m"
    by (cases n) simp_all
  have "map (\<lambda>i. (if i \<noteq> m then b else r) * k) [0..<m] = map (\<lambda>i. b * k) [0..<m]"
    by simp
  then have "(\<Sum>i\<leftarrow>[0..<m]. (if i \<noteq> m then b else r) * k) = (\<Sum>i\<leftarrow>[0..<m]. b * k)"
    by (rule arg_cong)
  then have "(\<Sum>i\<leftarrow>[0..<m]. (if i \<noteq> m then b else r) * k) = m * (b * k)"
    by (simp only: sum_list_triv length_upt) simp
  then show ?thesis
    by (simp add: n algebra_simps)
qed

lemma decode_blocks_length:
  assumes "for_range [0..<n] (decode_blocks du header offsets) acc = Inr acc'"
    and "bits_per_sample header = 8 \<or> bits_per_sample header = 16"
    and "0 < block_count header" "block_count header < 2 ^ 32"
    and "block_size header < 2 ^ 32" "rest_size header < 2 ^ 32"
  shows "length (fst acc') = length (fst acc) +
     (\<Sum>i\<leftarrow>[0..<n]. (if i \<noteq> block_count header - 1 then block_size header
                          else rest_size header) * (bits_per_sample header div 8))"
proof (rule for_range_sum [where f = "\<lambda>acc. length (fst acc)", OF _ assms(1)])
  fix i and a a' :: "bstr \<times> MemoryStream"
  assume "decode_blocks du header offsets i a = Inr a'"
  then obtain blk where "decode_block (du i) header i (snd a) offsets = Inr (blk, snd a')"
    and "fst a' = fst a @ blk"
    by (cases a) (auto simp: decode_blocks_def bind_err_eq_Inr)
  then show "length (fst a') = length (fst a) +
      (if i \<noteq> block_count header - 1 then block_size header else rest_size header)
        * (bits_per_sample header div 8)"
    using decode_block_length [OF _ assms(2-6)] by simp
qed

lemma read_blocks_length:
  assumes "read_blocks du s header = Inr smp"
    and "bits_per_sample header = 8 \<or> bits_per_sample header = 16"
    and "0 < block_count header" "block_count header < 2 ^ 32"
    and "block_size header < 2 ^ 32" "rest_size header < 2 ^ 32"
  shows "length smp = ((block_count header - 1) * block_size header + rest_size header)
                        * (bits_per_sample header div 8)"
proof -
  from assms(1) obtain offsets s1 s2 where
    "for_range [0..<block_count header] (decode_blocks du header offsets) ([], s1) = Inr (smp, s2)"
    by (auto simp: read_blocks_def bind_err_eq_Inr)
  from decode_blocks_length [OF this assms(2-6)]
    block_sum [OF assms(3), of "block_size header" "rest_size header" "bits_per_sample header div 8"]
  show ?thesis
    by simp
qed

lemma compressed_Inr:
  assumes "read_header \<lparr>buffer = buffer (stream f), pos = 0\<rparr> = Inr (h, s)"
    and "compression_level h \<noteq> - 1"
    and "decode_impl du f = Inr a"
  shows "(bits_per_sample h = 8 \<or> bits_per_sample h = 16)
     \<and> (channel_count h = 1 \<or> channel_count h = 2)
     \<and> 0 \<le> compression_level h \<and> compression_level h \<le> 5
     \<and> 0 < block_count h
     \<and> uncompressed_size h = sample_count h * bits_per_sample h div 8
     \<and> sample_count h = (block_count h - 1) * block_size h + rest_size h
     \<and> (\<exists>smp. read_blocks du s h = Inr smp \<and> samples a = smp)"
  using assms(3) unfolding decode_impl_compressed [OF assms(1,2)]
  by (auto simp: bind_err_eq_Inr split: if_splits)

lemma decode_impl_uncompressed:
  assumes "read_header \<lparr>buffer = buffer (stream f), pos = 0\<rparr> = Inr (h, s)"
    and "compression_level h = - 1"
  shows "decode_impl du f =
     (if 40 + uncompressed_size h \<le> length (buffer (stream f))
      then Inr \<lparr>audio_channel_count = channel_count h,
                audio_bits_per_sample = bits_per_sample h,
                audio_sample_rate = sample_rate h,
                samples = take (uncompressed_size h) (drop 40 (buffer (stream f)))\<rparr>
      else Inl BoundsFailure)"
proof -
  have s: "s = \<lparr>buffer = buffer (stream f), pos = 40\<rparr>"
    using read_header_Inr [OF assms(1)] by simp
  show ?thesis
    using assms
    by (simp add: decode_impl_def read_to_eof_def seek_def read_uncompressed_samples_def
        read_def s)
qed

lemma narrow_wi: "(ucast (word_of_int k :: u32) :: s16) = word_of_int k"
  by (rule ucast_down_wi) (simp add: is_down)

lemma narrow_sub: "(ucast ((scast (w :: s16) :: u32) - x) :: s16) = w - ucast x"
proof -
  have "(scast w :: u32) - x = word_of_int (sint w - uint x)"
    by simp
  then have "(ucast ((scast w :: u32) - x) :: s16) = word_of_int (sint w - uint x)"
    by (simp only: narrow_wi)
  also have "\<dots> = (word_of_int (sint w) :: s16) - word_of_int (uint x)"
    by (simp only: of_int_diff)
  also have "(word_of_int (sint w) :: s16) = w"
    by simp
  also have "(word_of_int (uint x) :: s16) = ucast x"
    by (simp only: ucast_eq)
  finally show ?thesis .
qed

lemma narrow_add: "(ucast ((scast (w :: s16) :: u32) + x) :: s16) = w + ucast x"
proof -
  have "(scast w :: u32) + x = word_of_int (sint w + uint x)"
    by simp
  then have "(ucast ((scast w :: u32) + x) :: s16) = word_of_int (sint w + uint x)"
    by (simp only: narrow_wi)
  also have "\<dots> = (word_of_int (sint w) :: s16) + word_of_int (uint x)"
    by (simp only: of_int_add)
  also have "(word_of_int (sint w) :: s16) = w"
    by simp
  also have "(word_of_int (uint x) :: s16) = ucast x"
    by (simp only: ucast_eq)
  finally show ?thesis .
qed

lemma bits_value_bound: "bits_value xs < 2 ^ length xs"
  by (induction xs) auto

lemma bits_value_append:
  "bits_value (xs @ ys) = bits_value xs + 2 ^ length xs * bits_value ys"
  by (induction xs) (auto simp: algebra_simps)

lemma bit_bits_value: "bit (bits_value xs) n \<longleftrightarrow> n < length xs \<and> xs ! n"
proof (induction xs arbitrary: n)
  case Nil
  show ?case by simp
next
  case (Cons x xs)
  show ?case
    by (cases n) (simp_all add: bit_0 bit_Suc Cons.IH)
qed

lemma field_sign:
  assumes "length mag < 32"
  shows "(word_of_nat (bits_value (mag @ [neg])) :: u32) AND push_bit (length mag) 1 \<noteq> 0 \<longleftrightarrow> neg"
  unfolding bit_iff_and_push_bit_not_eq_0 [symmetric]
  using assms by (simp add: bit_of_nat_iff bit_bits_value nth_append)

lemma field_magnitude:
  assumes "length mag < 32"
  shows "(word_of_nat (bits_value (mag @ [neg])) :: u32) AND (push_bit (length mag) 1 - 1)
           = word_of_nat (bits_value mag)"
proof -
  have "take_bit (length mag) (bits_value (mag @ [neg])) = bits_value mag"
    using bits_value_bound [of mag]
    by (simp add: bits_value_append take_bit_eq_mod)
  then show ?thesis
    by (simp flip: mask_eq_exp_minus_1 take_bit_eq_mask add: push_bit_eq_mult take_bit_of_nat)
qed

lemma narrow_nat: "(ucast (word_of_nat m :: u32) :: s16) = word_of_nat m"
  using narrow_wi [of "int m"] by simp

lemma narrow_shifted:
  "(ucast (push_bit k (word_of_nat m :: u32)) :: s16) = word_of_nat (m * 2 ^ k)"
proof -
  have 1: "push_bit k m = m * 2 ^ k"
    by (rule push_bit_eq_mult)
  have "push_bit k (word_of_nat m :: u32) = word_of_nat (push_bit k m)"
    by (rule push_bit_of_nat)
  then show ?thesis
    by (simp only: 1 narrow_nat)
qed

lemma read_bits_append:
  "length xs = n \<Longrightarrow> read_bits n (xs @ rest) = Inr (word_of_nat (bits_value xs), rest)"
  by (simp add: read_bits_def)

lemma update_predictor_field:
  assumes "1 \<le> bits" "bits \<le> 32" "0 \<le> shift"
    and "bit_stream st = mag @ neg # rest" "int (length mag) = bits - 1"
  shows "update_predictor bits shift st =
     Inr (st\<lparr>bit_stream := rest,
             d := d_upd (d st) (current_channel st)
                    (spec_sign_magnitude (d_at (d st) (current_channel st)) neg
                       (bits_value mag) (nat shift))\<rparr>)"
proof -
  have n: "nat (bits - 1) = length mag" and m: "length mag < 32"
    using assms by linarith+
  have "length (mag @ [neg]) = nat bits"
    using assms by simp
  then have r: "read_bits (nat bits) (bit_stream st)
              = Inr (word_of_nat (bits_value (mag @ [neg])), rest)"
    using read_bits_append [of "mag @ [neg]" "nat bits" rest] assms(4) by simp
  show ?thesis
    unfolding update_predictor_def Let_def r n
    by (cases neg)
      (simp_all only: bind_err_Inr case_prod_conv field_sign [OF m] field_magnitude [OF m]
        narrow_sub narrow_add narrow_shifted spec_sign_magnitude_def if_True if_False simp_thms)
qed

lemma type_code_eq_7:
  assumes "t < 8"
  shows "(word_of_nat t :: u32) = 7 \<longleftrightarrow> t = 7"
proof -
  have "(word_of_nat t :: u32) = word_of_nat 7 \<longleftrightarrow> t = 7"
    using assms by (simp only: word_of_nat_eq_iff) (simp add: take_bit_eq_mod)
  then show ?thesis by simp
qed

lemma type_code_uint:
  assumes "t < 8"
  shows "uint (word_of_nat t :: u32) = int t"
proof -
  have "take_bit 32 t = t"
    using assms by (simp add: take_bit_eq_mod)
  then show ?thesis
    by (simp add: unsigned_of_nat)
qed

lemma decode_code_reset:
  assumes "run_length st = 0" and "bit_stream st = [True, True, True, True] @ rest"
  shows "decode_code header st =
     Inr (st\<lparr>bit_stream := rest, d := d_upd (d st) (current_channel st) 0\<rparr>)"
  using assms by (simp add: decode_code_def read_bits_def)

lemma decode_code_type7:
  assumes "run_length st = 0"
    and "0 \<le> compression_level header" "compression_level header \<le> 5"
    and "bit_stream st = [True, True, True, False] @ mag @ neg # rest"
    and "int (length mag) = spec_residual_bits (compression_level header) 7 - 1"
  shows "decode_code header st =
     Inr (st\<lparr>bit_stream := rest,
             d := d_upd (d st) (current_channel st)
                    (spec_sign_magnitude (d_at (d st) (current_channel st)) neg (bits_value mag)
                       (nat (spec_residual_shift (compression_level header) 7)))\<rparr>)"
proof -
  let ?st2 = "st\<lparr>bit_stream := mag @ neg # rest\<rparr>"
  let ?b = "spec_residual_bits (compression_level header) 7"
  let ?s = "spec_residual_shift (compression_level header) 7"
  have code: "decode_code header st = update_predictor ?b ?s ?st2"
    using assms(1,4)
    by (simp add: decode_code_def read_bits_def spec_residual_bits_def spec_residual_shift_def)
  have "1 \<le> ?b" "?b \<le> 32" "0 \<le> ?s"
    using assms(2,3) by (simp_all add: spec_residual_bits_def spec_residual_shift_def)
  from update_predictor_field [OF this, of ?st2 mag neg rest] assms(5)
  show ?thesis
    unfolding code by simp
qed

lemma decode_code_type_1_6:
  assumes "run_length st = 0"
    and "0 \<le> compression_level header" "compression_level header \<le> 5"
    and "length tb = 3" "1 \<le> bits_value tb" "bits_value tb \<le> 6"
    and "bit_stream st = tb @ mag @ neg # rest"
    and "int (length mag) = spec_residual_bits (compression_level header) (bits_value tb) - 1"
  shows "decode_code header st =
     Inr (st\<lparr>bit_stream := rest,
             d := d_upd (d st) (current_channel st)
                    (spec_sign_magnitude (d_at (d st) (current_channel st)) neg (bits_value mag)
                       (nat (spec_residual_shift (compression_level header) (bits_value tb))))\<rparr>)"
proof -
  let ?t = "bits_value tb"
  let ?st1 = "st\<lparr>bit_stream := mag @ neg # rest\<rparr>"
  let ?b = "spec_residual_bits (compression_level header) ?t"
  let ?s = "spec_residual_shift (compression_level header) ?t"
  have t: "?t < 8" "?t \<noteq> 7" "0 < ?t"
    using assms(5,6) by simp_all
  have r: "read_bits 3 (bit_stream st) = Inr (word_of_nat ?t, mag @ neg # rest)"
    using read_bits_append [OF assms(4)] assms(7) by simp
  have code: "decode_code header st = update_predictor ?b ?s ?st1"
    unfolding decode_code_def r using assms(1) t
    by (simp add: type_code_eq_7 type_code_uint spec_residual_bits_def spec_residual_shift_def)
  have "1 \<le> ?b" "?b \<le> 32" "0 \<le> ?s"
    using assms(2,3) by (simp_all add: spec_residual_bits_def spec_residual_shift_def)
  from update_predictor_field [OF this, of ?st1 mag neg rest] assms(8)
  show ?thesis
    unfolding code by simp
qed

lemma sint_spec_sign_magnitude:
  "sint (spec_sign_magnitude v neg m k) =
     signed_take_bit 15 (if neg then sint v - int (m * 2 ^ k) else sint v + int (m * 2 ^ k))"
proof -
  have v: "v = word_of_int (sint v)"
    by simp
  have "spec_sign_magnitude v neg m k =
     word_of_int (if neg then sint v - int (m * 2 ^ k) else sint v + int (m * 2 ^ k))"
    by (simp add: spec_sign_magnitude_def)
  then show ?thesis
    by (simp only: sint_sbintrunc') simp
qed

lemma update_predictor_Inr:
  assumes "update_predictor bits shift st = Inr st'" and "1 \<le> bits" "bits \<le> 32" "0 \<le> shift"
  shows "\<exists>mag neg rest. int (length mag) = bits - 1 \<and> bit_stream st = mag @ neg # rest \<and>
     st' = st\<lparr>bit_stream := rest,
              d := d_upd (d st) (current_channel st)
                     (spec_sign_magnitude (d_at (d st) (current_channel st)) neg
                        (bits_value mag) (nat shift))\<rparr>"
proof -
  let ?bs = "bit_stream st"
  let ?n = "nat (bits - 1)"
  have len: "nat bits \<le> length ?bs"
    using assms(1)
    by (auto simp: update_predictor_def Let_def read_bits_def bind_err_eq_Inr split: if_splits)
  then have n: "?n < length ?bs"
    using assms(2) by linarith
  have split: "?bs = take ?n ?bs @ (?bs ! ?n) # drop (Suc ?n) ?bs"
    using n by (rule id_take_nth_drop)
  have l: "int (length (take ?n ?bs)) = bits - 1"
    using n assms(2) by simp
  from update_predictor_field [OF assms(2-4) split l] assms(1) split l
  show ?thesis
    by (metis sum.inject(2))
qed

lemma d_upd_same: "d_upd dd c (d_at dd c) = dd"
  by (cases dd) (simp add: d_upd_def d_at_def)

lemma predictor_step_refl: "predictor_step dd c dd"
proof -
  have "spec_sign_magnitude (d_at dd c) False 0 0 = d_at dd c"
    by (simp add: spec_sign_magnitude_def)
  then have "dd = d_upd dd c (spec_sign_magnitude (d_at dd c) False 0 0)"
    by (simp add: d_upd_same)
  moreover have "(0::nat) < 128" "(0::nat) \<le> 11"
    by simp_all
  ultimately show ?thesis
    unfolding predictor_step_def by blast
qed

lemma predictor_step_reset: "predictor_step dd c (d_upd dd c 0)"
  unfolding predictor_step_def by blast

lemma update_predictor_step:
  assumes "update_predictor bits shift st = Inr st'"
    and "1 \<le> bits" "bits \<le> 8" "0 \<le> shift" "shift \<le> 11"
  shows "predictor_step (d st) (current_channel st) (d st')"
proof -
  from update_predictor_Inr [OF assms(1,2) _ assms(4)] assms(3)
  obtain mag neg rest where l: "int (length mag) = bits - 1"
    and st': "st' = st\<lparr>bit_stream := rest,
              d := d_upd (d st) (current_channel st)
                     (spec_sign_magnitude (d_at (d st) (current_channel st)) neg
                        (bits_value mag) (nat shift))\<rparr>"
    by auto
  have "length mag \<le> 7"
    using l assms(3) by linarith
  then have "(2::nat) ^ length mag \<le> 2 ^ 7"
    by (intro power_increasing) simp_all
  then have m: "bits_value mag < 128"
    using bits_value_bound [of mag] by simp
  have k: "nat shift \<le> 11"
    using assms(5) by linarith
  show ?thesis
    unfolding predictor_step_def st' using m k by auto
qed

lemma read_bits_3_bound:
  assumes "read_bits 3 bs = Inr (ty, bs')"
  shows "uint ty < 8"
proof -
  from assms have ty: "ty = word_of_nat (bits_value (take 3 bs))" and "3 \<le> length bs"
    by (auto simp: read_bits_def split: if_splits)
  then have "bits_value (take 3 bs) < 2 ^ 3"
    using bits_value_bound [of "take 3 bs"] by simp
  then show ?thesis
    unfolding ty by (simp add: type_code_uint)
qed

lemma uint_7: "uint (ty :: u32) = 7 \<longleftrightarrow> ty = 7"
proof
  assume "uint ty = 7"
  then have "word_of_int (uint ty) = (word_of_int 7 :: u32)"
    by simp
  then show "ty = 7"
    by (simp only: word_of_int_uint) simp
next
  assume "ty = 7"
  then show "uint ty = 7"
    by simp
qed

lemma update_predictor_step_imp:
  assumes "update_predictor bits shift st = Inr st'"
  shows "1 \<le> bits \<and> bits \<le> 8 \<and> 0 \<le> shift \<and> shift \<le> 11
           \<longrightarrow> predictor_step (d st) (current_channel st) (d st')"
  using update_predictor_step [OF assms] by blast

lemma decode_code_step:
  assumes "decode_code header st = Inr st'"
    and "0 \<le> compression_level header" "compression_level header \<le> 5"
  shows "predictor_step (d st) (current_channel st) (d st')"
proof (cases "run_length st = 0")
  case False
  with assms(1) have "d st' = d st"
    by (auto simp: decode_code_def)
  then show ?thesis
    by (simp add: predictor_step_refl)
next
  case True
  from assms(1) True obtain ty bs1 where r: "read_bits 3 (bit_stream st) = Inr (ty, bs1)"
    by (auto simp: decode_code_def bind_err_eq_Inr)
  note b = read_bits_3_bound [OF r]
  have ne: "ty \<noteq> 7 \<Longrightarrow> uint ty \<le> 6"
    using b uint_7 [of ty] by linarith
  show ?thesis
    using assms True b ne unfolding decode_code_def Let_def r
    by (auto simp: bind_err_eq_Inr predictor_step_refl predictor_step_reset
        split: if_splits dest!: update_predictor_step_imp)
qed

lemma low_byte: "uint (ucast (v :: s16) :: u8) = sint v mod 256"
proof -
  have "uint (ucast v :: u8) = take_bit 8 (uint v)"
    by (simp add: unsigned_ucast_eq)
  also have "\<dots> = take_bit 8 (signed_take_bit 15 (uint v))"
    by (simp add: take_bit_signed_take_bit)
  also have "signed_take_bit 15 (uint v) = sint v"
    by (simp add: sint_uint)
  finally show ?thesis
    by (simp add: take_bit_eq_mod)
qed

lemma emit_sample_8:
  assumes "bits_per_sample header = 8"
  shows "output_stream (emit_sample header st)
           = output_stream st @ [ucast (d_at (d st) (current_channel st))]"
  using assms by (simp add: emit_sample_def Let_def write_u8_def)

lemma type7_level2_run:
  "decode_code (level_header 2)
     (sample_state v ([True, True, True, False] @ mag @ [False]))
   = Inr (sample_state (v + word_of_nat (bits_value mag * 2 ^ 11)) [])"
  if "length mag = 5"
  using decode_code_type7 [where header = "level_header 2"
      and st = "sample_state v ([True, True, True, False] @ mag @ [False])"
      and mag = mag and neg = False and rest = "[]"] that
  by (simp add: sample_state_def d_upd_def d_at_def level_header_def spec_residual_bits_def
      spec_residual_shift_def spec_sign_magnitude_def)

lemma emit_sample_eq:
  "emit_sample header st =
     st\<lparr>output_stream := output_stream st @ sample_of header (d_at (d st) (current_channel st)),
        current_channel := next_channel header (current_channel st)\<rparr>"
  by (simp add: emit_sample_def Let_def write_u8_def write_le_u16_def sample_of_def
      next_channel_def)

lemma decode_sample_pending:
  assumes "run_length st \<noteq> 0"
  shows "decode_sample header st = Inr (emit_sample header (st\<lparr>run_length := run_length st - 1\<rparr>))"
  using assms by (simp add: decode_sample_def decode_code_def)

lemma pending_run:
  assumes "run_length st = length xs"
  shows "for_range xs (\<lambda>i. decode_sample header) st =
     Inr (st\<lparr>run_length := 0,
             current_channel := channel_after header (length xs) (current_channel st),
             output_stream := output_stream st
                @ held_samples header (d st) (current_channel st) (length xs)\<rparr>)"
  using assms
proof (induction xs arbitrary: st)
  case Nil
  then show ?case by simp
next
  case (Cons x xs)
  let ?st1 = "emit_sample header (st\<lparr>run_length := length xs\<rparr>)"
  have 1: "decode_sample header st = Inr ?st1"
    using decode_sample_pending [of st header] Cons.prems by simp
  have "run_length ?st1 = length xs"
    by (simp add: emit_sample_eq)
  from Cons.IH [OF this] show ?case
    by (simp add: 1 emit_sample_eq)
qed

lemma channel_after_mono:
  "channel_count header \<noteq> 2 \<Longrightarrow> channel_after header n c = c"
  by (induction n arbitrary: c) (simp_all add: next_channel_def)

lemma xor_one_bit: "c < 2 \<Longrightarrow> c XOR 1 = (c + 1) mod (2 :: nat)"
proof -
  assume "c < 2"
  then have "c = 0 \<or> c = 1" by linarith
  then show ?thesis by auto
qed

lemma channel_after_stereo:
  "channel_count header = 2 \<Longrightarrow> c < 2 \<Longrightarrow> channel_after header n c = (c + n) mod 2"
proof (induction n arbitrary: c)
  case 0
  then show ?case by simp
next
  case (Suc n)
  have "next_channel header c = (c + 1) mod 2"
    using Suc.prems xor_one_bit [of c] by (simp add: next_channel_def)
  moreover have "(c + 1) mod 2 < (2 :: nat)"
    by simp
  ultimately show ?case
    using Suc.IH [OF Suc.prems(1), of "(c + 1) mod 2"] by (simp add: mod_add_left_eq)
qed

lemma held_samples_mono:
  "channel_count header \<noteq> 2 \<Longrightarrow>
   held_samples header dd c n = concat (replicate n (sample_of header (d_at dd c)))"
  by (induction n) (simp_all add: next_channel_def)

lemma unat_small: "n < 2 ^ 32 \<Longrightarrow> unat (word_of_nat n :: u32) = n"
  by (simp add: unat_of_nat take_bit_eq_mod)

lemma small_word_eq:
  assumes "n < 2 ^ 32" "m < 2 ^ 32"
  shows "(word_of_nat n :: u32) = word_of_nat m \<longleftrightarrow> n = m"
  using assms by (simp add: word_of_nat_eq_iff take_bit_eq_mod)

lemma decode_code_zero_plain:
  assumes "run_length st = 0" "\<not> use_run_length header"
    and "bit_stream st = [False, False, False] @ rest"
  shows "decode_code header st = Inr (st\<lparr>bit_stream := rest\<rparr>)"
  using assms by (simp add: decode_code_def read_bits_def)

lemma decode_code_zero_no_run:
  assumes "run_length st = 0" "use_run_length header"
    and "bit_stream st = [False, False, False, False] @ rest"
  shows "decode_code header st = Inr (st\<lparr>bit_stream := rest, run_length := 0\<rparr>)"
  using assms by (simp add: decode_code_def read_bits_def)

lemma decode_code_zero_short_run:
  assumes "run_length st = 0" "use_run_length header"
    and "bit_stream st = [False, False, False, True] @ r2 @ rest"
    and "length r2 = 2" "bits_value r2 \<noteq> 3"
  shows "decode_code header st = Inr (st\<lparr>bit_stream := rest, run_length := bits_value r2\<rparr>)"
proof -
  have b: "bits_value r2 < 2 ^ 32"
    using bits_value_bound [of r2] assms(4) by simp
  have r: "read_bits 2 (r2 @ rest) = Inr (word_of_nat (bits_value r2), rest)"
    using assms(4) by (rule read_bits_append)
  have n: "(word_of_nat (bits_value r2) :: u32) \<noteq> 3"
    using small_word_eq [OF b, of 3] assms(5) by simp
  have "decode_code header st =
      bind_err (read_bits 2 (r2 @ rest)) (\<lambda>(r2, bs3).
                if r2 = 3 then
                  bind_err (read_bits 8 bs3) (\<lambda>(r3, bs4).
                    Inr (st\<lparr>bit_stream := bs4, run_length := unat r3\<rparr>))
                else Inr (st\<lparr>bit_stream := bs3, run_length := unat r2\<rparr>))"
    using assms(1-3) by (simp add: decode_code_def read_bits_def)
  then show ?thesis
    unfolding r using n by (simp add: unat_small [OF b])
qed

lemma decode_code_zero_long_run:
  assumes "run_length st = 0" "use_run_length header"
    and "bit_stream st = [False, False, False, True, True, True] @ r3 @ rest"
    and "length r3 = 8"
  shows "decode_code header st = Inr (st\<lparr>bit_stream := rest, run_length := bits_value r3\<rparr>)"
proof -
  have "bits_value r3 < 2 ^ 8"
    using bits_value_bound [of r3] assms(4) by simp
  then have b: "bits_value r3 < 2 ^ 32"
    by simp
  have r: "read_bits 8 (r3 @ rest) = Inr (word_of_nat (bits_value r3), rest)"
    using assms(4) by (rule read_bits_append)
  have "decode_code header st =
      bind_err (read_bits 8 (r3 @ rest)) (\<lambda>(r3, bs4).
                    Inr (st\<lparr>bit_stream := bs4, run_length := unat r3\<rparr>))"
    using assms(1-3) by (simp add: decode_code_def read_bits_def)
  then show ?thesis
    unfolding r by (simp add: unat_small [OF b])
qed

lemma run_of_three:
  assumes "run_length st = 0" "use_run_length header"
    and "bit_stream st = [False, False, False, True, True, True,
                          True, True, False, False, False, False, False, False] @ rest"
    and "length xs = 4"
  shows "for_range xs (\<lambda>i. decode_sample header) st =
     Inr (st\<lparr>bit_stream := rest, run_length := 0,
             current_channel := channel_after header 4 (current_channel st),
             output_stream := output_stream st
                @ held_samples header (d st) (current_channel st) 4\<rparr>)"
proof -
  from assms(4) obtain x ys where xs: "xs = x # ys" and ys: "length ys = 3"
    by (cases xs) simp_all
  let ?st1 = "emit_sample header (st\<lparr>bit_stream := rest, run_length := 3\<rparr>)"
  have "decode_code header st = Inr (st\<lparr>bit_stream := rest, run_length := 3\<rparr>)"
    using decode_code_zero_long_run [OF assms(1,2),
        of "[True, True, False, False, False, False, False, False]" rest] assms(3)
    by simp
  then have 1: "decode_sample header st = Inr ?st1"
    by (simp add: decode_sample_def)
  have "run_length ?st1 = length ys"
    by (simp add: emit_sample_eq ys)
  from pending_run [OF this, of header] show ?thesis
    by (simp add: xs 1 ys emit_sample_eq numeral_eq_Suc)
qed

lemma held_samples_numeral:
  "held_samples header dd c (numeral k) =
     sample_of header (d_at dd c) @ held_samples header dd (next_channel header c) (pred_numeral k)"
  by (simp add: numeral_eq_Suc)

lemma channel_after_numeral:
  "channel_after header (numeral k) c = channel_after header (pred_numeral k) (next_channel header c)"
  by (simp add: numeral_eq_Suc)

lemma decode_sample_channel:
  assumes "decode_sample header st = Inr st'"
  shows "current_channel st' = next_channel header (current_channel st)"
proof -
  from assms obtain st1 where 1: "decode_code header st = Inr st1"
    and 2: "st' = emit_sample header st1"
    by (auto simp: decode_sample_def bind_err_eq_Inr)
  show ?thesis
    using decode_code_frame [OF 1] by (simp add: 2 emit_sample_eq)
qed

lemma decode_samples_channel:
  assumes "for_range xs (\<lambda>i. decode_sample header) st = Inr st'"
  shows "current_channel st' = channel_after header (length xs) (current_channel st)"
  using assms
proof (induction xs arbitrary: st)
  case Nil
  then show ?case by simp
next
  case (Cons x xs)
  from Cons.prems obtain st1 where 1: "decode_sample header st = Inr st1"
    and 2: "for_range xs (\<lambda>i. decode_sample header) st1 = Inr st'"
    by (auto simp: bind_err_eq_Inr)
  show ?case
    using Cons.IH [OF 2] decode_sample_channel [OF 1] by simp
qed

lemma toggle_bit: "c < 2 \<Longrightarrow> c XOR 1 = 1 - (c :: nat)"
proof -
  assume "c < 2"
  then have "c = 0 \<or> c = 1" by linarith
  then show ?thesis by auto
qed

lemma held_samples_stereo:
  assumes "channel_count header = 2" "c < 2"
  shows "held_samples header dd c (Suc (Suc n)) =
     sample_of header (d_at dd c) @ sample_of header (d_at dd (1 - c)) @ held_samples header dd c n"
proof -
  have "next_channel header c = 1 - c"
    using assms toggle_bit [of c] by (simp add: next_channel_def)
  moreover have "next_channel header (1 - c) = c"
    using assms toggle_bit [of "1 - c"] by (simp add: next_channel_def)
  ultimately show ?thesis
    by simp
qed

lemma take_one_drop: "p < length buf \<Longrightarrow> take (Suc 0) (drop p buf) = [buf ! p]"
  by (simp add: take_Suc_conv_app_nth)

lemma read_seed_8:
  assumes "bits_per_sample header = 8"
  shows "read_seed header k (dd, s) =
     (if pos s + 1 \<le> length (buffer s)
      then Inr (d_upd dd k (ucast (buffer s ! pos s)), s\<lparr>pos := pos s + 1\<rparr>)
      else Inl BoundsFailure)"
  using assms by (simp add: read_seed_def read_u8_eq take_one_drop)

lemma read_seed_16:
  assumes "bits_per_sample header \<noteq> 8"
  shows "read_seed header k (dd, s) =
     (if pos s + 2 \<le> length (buffer s)
      then Inr (d_upd dd k (word_of_nat (le_value (take 2 (drop (pos s) (buffer s))))),
                s\<lparr>pos := pos s + 2\<rparr>)
      else Inl BoundsFailure)"
  using assms by (simp add: read_seed_def read_le_u16_eq)

lemma upt_one: "[0..<Suc 0] = [0]"
  by simp

lemma upt_two: "[0..<2] = [0, Suc 0]"
  by (simp add: upt_rec)

lemma read_seeds_eq:
  assumes "channel_count header = 1 \<or> channel_count header = 2"
    and "bits_per_sample header = 8 \<or> bits_per_sample header = 16"
  shows "for_range [0..<channel_count header] (read_seed header) (du, s) =
     (if pos s + (bits_per_sample header div 8) * channel_count header \<le> length (buffer s)
      then Inr (spec_seeds header (drop (pos s) (buffer s)) du,
                s\<lparr>pos := pos s + (bits_per_sample header div 8) * channel_count header\<rparr>)
      else Inl BoundsFailure)"
proof -
  consider (m8) "channel_count header = 1" "bits_per_sample header = 8"
    | (s8) "channel_count header = 2" "bits_per_sample header = 8"
    | (m16) "channel_count header = 1" "bits_per_sample header = 16"
    | (s16) "channel_count header = 2" "bits_per_sample header = 16"
    using assms by blast
  then show ?thesis
  proof cases
    case m8
    then show ?thesis
      by (simp add: upt_one read_seed_8 spec_seeds_def spec_seed_def d_upd_def)
  next
    case s8
    then show ?thesis
      by (simp add: upt_two read_seed_8 spec_seeds_def spec_seed_def d_upd_def)
  next
    case m16
    then show ?thesis
      by (simp add: upt_one read_seed_16 spec_seeds_def spec_seed_def d_upd_def)
  next
    case s16
    then show ?thesis
      by (simp add: upt_two read_seed_16 spec_seeds_def spec_seed_def d_upd_def
          drop_drop add.commute)
  qed
qed

lemma spec_seeds_take:
  assumes "channel_count header = 1 \<or> channel_count header = 2"
    and "bits_per_sample header = 8 \<or> bits_per_sample header = 16"
    and "(bits_per_sample header div 8) * channel_count header \<le> n"
  shows "spec_seeds header (take n xs) du = spec_seeds header xs du"
proof -
  have two: "take 2 (drop k (take n xs)) = take 2 (drop k xs)" if "k + 2 \<le> n" for k
  proof -
    have "min 2 (n - k) = 2"
      using that by simp
    then show ?thesis
      by (simp add: drop_take)
  qed
  show ?thesis
    using assms two [of 0] two [of 2]
    by (auto simp: spec_seeds_def spec_seed_def)
qed

lemma decode_block_steps:
  assumes "i < length offsets" "length offsets < 2 ^ 64"
  shows "decode_block du header i s offsets =
     bind_err (for_range [0..<channel_count header] (read_seed header)
                 (du, s\<lparr>pos := unat (offsets ! i)\<rparr>)) (\<lambda>(d0, s1).
     bind_err (read (size_t_sub
                 (if i \<noteq> length offsets - 1 then unat (offsets ! (i + 1) - offsets ! i)
                  else size_t_sub (length (buffer s)) (unat (offsets ! i)))
                 (size_t_mul (drop_bit 3 (bits_per_sample header)) (channel_count header))) s1)
       (\<lambda>(input, s2).
     bind_err (for_range [0..<block_output_size header i] (\<lambda>i. decode_sample header)
                 \<lparr>bit_stream = LsbBitStream input, d = d0, current_channel = 0,
                  run_length = 0, output_stream = []\<rparr>) (\<lambda>st.
     Inr (output_stream st, s2))))"
proof -
  have sz: "size_t_sub (length offsets) 1 = length offsets - 1"
    using assms by (intro size_t_sub_le) simp_all
  have nx: "i + 1 < length offsets" if "i \<noteq> length offsets - 1"
    using that assms(1) by linarith
  show ?thesis
    unfolding decode_block_def Let_def sz block_output_size_def
    using assms(1) nx by (simp add: vec_at_def seek_def stream_size_def)
qed

lemma decode_block_eq:
  assumes cc: "channel_count header = 1 \<or> channel_count header = 2"
    and bits: "bits_per_sample header = 8 \<or> bits_per_sample header = 16"
    and i: "i < length offsets" and lo: "length offsets < 2 ^ 64"
    and lb: "length (buffer s) < 2 ^ 64"
  shows "decode_block du header i s offsets =
     (if unat (offsets ! i) + spec_input_size (buffer s) offsets i \<le> length (buffer s) \<and>
         (bits_per_sample header div 8) * channel_count header
            \<le> spec_input_size (buffer s) offsets i
      then bind_err (for_range [0..<block_output_size header i] (\<lambda>i. decode_sample header)
               \<lparr>bit_stream = LsbBitStream
                    (drop ((bits_per_sample header div 8) * channel_count header)
                       (spec_span (buffer s) offsets i)),
                d = spec_seeds header (spec_span (buffer s) offsets i) du,
                current_channel = 0, run_length = 0, output_stream = []\<rparr>)
             (\<lambda>st. Inr (output_stream st,
                         s\<lparr>pos := unat (offsets ! i) + spec_input_size (buffer s) offsets i\<rparr>))
      else Inl BoundsFailure)"
proof -
  let ?start = "unat (offsets ! i)"
  let ?len = "length (buffer s)"
  let ?hdr = "(bits_per_sample header div 8) * channel_count header"
  let ?isz = "spec_input_size (buffer s) offsets i"
  let ?code_isz = "if i \<noteq> length offsets - 1 then unat (offsets ! (i + 1) - offsets ! i)
                  else size_t_sub ?len ?start"
  let ?tail = "drop ?start (buffer s)"
  have hm: "size_t_mul (drop_bit 3 (bits_per_sample header)) (channel_count header) = ?hdr"
    using cc bits by (auto simp: size_t_mul_def drop_bit_eq_div)
  have hdr4: "?hdr \<le> 4" and hdr0: "0 < ?hdr"
    using cc bits by auto
  have u32: "unat (offsets ! (i + 1) - offsets ! i) < 2 ^ 32"
    using unat_u32_bound [of "offsets ! (i + 1) - offsets ! i"] by simp
  note steps = decode_block_steps [OF i lo, of du header s, unfolded hm]
  let ?seeds = "for_range [0..<channel_count header] (read_seed header) (du, s\<lparr>pos := ?start\<rparr>)"
  have seeds: "?seeds =
     (if ?start + ?hdr \<le> ?len
      then Inr (spec_seeds header ?tail du, s\<lparr>pos := ?start + ?hdr\<rparr>)
      else Inl BoundsFailure)"
    using read_seeds_eq [OF cc bits, of du "s\<lparr>pos := ?start\<rparr>"] by simp
  show ?thesis
  proof (cases "?start + ?hdr \<le> ?len")
    case False
    then have "\<not> (?start + ?isz \<le> ?len \<and> ?hdr \<le> ?isz)"
      by linarith
    then have c: "(?start + ?isz \<le> ?len \<and> ?hdr \<le> ?isz) = False"
      by (rule eq_False [THEN iffD2])
    have e: "decode_block du header i s offsets = Inl BoundsFailure"
      unfolding steps seeds using False by simp
    show ?thesis
      unfolding e c by simp
  next
    case True
    then have sl: "?start \<le> ?len"
      by linarith
    have ss: "size_t_sub ?len ?start = ?len - ?start"
      using sl lb by (rule size_t_sub_le)
    have isz: "?code_isz = ?isz"
      unfolding spec_input_size_def ss by (rule refl)
    have isz_b: "?isz < 2 ^ 64"
    proof (cases "i \<noteq> length offsets - 1")
      case True
      then show ?thesis
        using u32 by (simp add: spec_input_size_def)
    next
      case False
      then show ?thesis
        using lb by (simp add: spec_input_size_def)
    qed
    have blk: "decode_block du header i s offsets =
       bind_err (read (size_t_sub ?isz ?hdr) (s\<lparr>pos := ?start + ?hdr\<rparr>)) (\<lambda>(input, s2).
       bind_err (for_range [0..<block_output_size header i] (\<lambda>i. decode_sample header)
                 \<lparr>bit_stream = LsbBitStream input, d = spec_seeds header ?tail du,
                  current_channel = 0, run_length = 0, output_stream = []\<rparr>) (\<lambda>st.
       Inr (output_stream st, s2)))"
      unfolding steps seeds isz using True by simp
    show ?thesis
    proof (cases "?hdr \<le> ?isz")
      case False
      then have "size_t_sub ?isz ?hdr = ?isz + 2 ^ 64 - ?hdr"
        using hdr4 by (intro size_t_sub_wrap) simp_all
      then have "\<not> ?start + ?hdr + size_t_sub ?isz ?hdr \<le> ?len"
        using lb hdr4 by linarith
      then have "decode_block du header i s offsets = Inl BoundsFailure"
        unfolding blk by (simp add: read_def)
      then show ?thesis
        using False by simp
    next
      case h: True
      have n: "size_t_sub ?isz ?hdr = ?isz - ?hdr"
        using h isz_b by (intro size_t_sub_le)
      show ?thesis
      proof (cases "?start + ?isz \<le> ?len")
        case False
        then have "\<not> ?start + ?hdr + (?isz - ?hdr) \<le> ?len"
          using h by linarith
        then have "decode_block du header i s offsets = Inl BoundsFailure"
          unfolding blk n by (simp add: read_def)
        then show ?thesis
          using False by simp
      next
        case ok: True
        have fits: "?start + ?hdr + (?isz - ?hdr) \<le> ?len"
          and pos': "?start + ?hdr + (?isz - ?hdr) = ?start + ?isz"
          using h ok by linarith+
        have input: "take (?isz - ?hdr) (drop (?start + ?hdr) (buffer s))
                       = drop ?hdr (spec_span (buffer s) offsets i)"
          by (simp add: spec_span_def drop_take add.commute)
        have sd: "spec_seeds header ?tail du = spec_seeds header (spec_span (buffer s) offsets i) du"
          unfolding spec_span_def using spec_seeds_take [OF cc bits h] by simp
        show ?thesis
          unfolding blk n using fits h ok
          by (simp add: read_def input sd pos')
      qed
    qed
  qed
qed

lemma update_predictor_other:
  assumes "current_channel st = 0"
  shows "update_predictor bits shift (set_other y st)
           = map_sum id (set_other y) (update_predictor bits shift st)"
  using assms
  by (cases "read_bits (nat bits) (bit_stream st)")
    (auto simp: update_predictor_def Let_def set_other_def d_at_def d_upd_def)

lemma decode_code_other:
  assumes "current_channel st = 0"
  shows "decode_code header (set_other y st) = map_sum id (set_other y) (decode_code header st)"
proof -
  have u: "update_predictor bits shift (st\<lparr>d := (fst (d st), y), bit_stream := bs\<rparr>)
             = map_sum id (set_other y) (update_predictor bits shift (st\<lparr>bit_stream := bs\<rparr>))"
    for bits shift bs
  proof -
    have eq: "st\<lparr>d := (fst (d st), y), bit_stream := bs\<rparr> = set_other y (st\<lparr>bit_stream := bs\<rparr>)"
      by (simp add: set_other_def)
    show ?thesis
      unfolding eq using assms by (intro update_predictor_other) simp
  qed
  show ?thesis
    using assms
    by (auto simp: decode_code_def Let_def set_other_def d_upd_def bind_err_def u
        split: sum.splits prod.splits)
qed

lemma emit_sample_other:
  assumes "current_channel st = 0" "channel_count header \<noteq> 2"
  shows "emit_sample header (set_other y st) = set_other y (emit_sample header st)"
  using assms by (simp add: emit_sample_eq set_other_def d_at_def next_channel_def)

lemma decode_sample_other:
  assumes "current_channel st = 0" "channel_count header \<noteq> 2"
  shows "decode_sample header (set_other y st)
           = map_sum id (set_other y) (decode_sample header st)"
proof (cases "decode_code header st")
  case (Inl e)
  then show ?thesis
    using assms by (simp add: decode_sample_def decode_code_other)
next
  case (Inr st1)
  then have "current_channel st1 = 0"
    using decode_code_frame [of header st st1] assms(1) by simp
  then show ?thesis
    using assms Inr by (simp add: decode_sample_def decode_code_other emit_sample_other)
qed

lemma decode_samples_other:
  assumes "current_channel st = 0" "channel_count header \<noteq> 2"
  shows "for_range xs (\<lambda>i. decode_sample header) (set_other y st)
           = map_sum id (set_other y) (for_range xs (\<lambda>i. decode_sample header) st)"
  using assms(1)
proof (induction xs arbitrary: st)
  case Nil
  show ?case by simp
next
  case (Cons x xs)
  show ?case
  proof (cases "decode_sample header st")
    case (Inl e)
    then show ?thesis
      using Cons.prems assms(2) by (simp add: decode_sample_other)
  next
    case (Inr st1)
    then have "current_channel st1 = 0"
      using decode_sample_channel [of header st st1] Cons.prems assms(2)
      by (simp add: next_channel_def)
    from Cons.IH [OF this] show ?thesis
      using Cons.prems assms(2) Inr by (simp add: decode_sample_other)
  qed
qed

lemma mono_loop_garbage:
  assumes "channel_count header \<noteq> 2"
  shows "bind_err (for_range xs (\<lambda>i. decode_sample header)
                     \<lparr>bit_stream = bs, d = (v, y), current_channel = 0,
                      run_length = 0, output_stream = []\<rparr>) (\<lambda>st. Inr (output_stream st, s2))
       = bind_err (for_range xs (\<lambda>i. decode_sample header)
                     \<lparr>bit_stream = bs, d = (v, y'), current_channel = 0,
                      run_length = 0, output_stream = []\<rparr>) (\<lambda>st. Inr (output_stream st, s2))"
proof -
  let ?st = "\<lparr>bit_stream = bs, d = (v, y'), current_channel = 0,
              run_length = 0, output_stream = []\<rparr>"
  have "\<lparr>bit_stream = bs, d = (v, y), current_channel = 0,
          run_length = 0, output_stream = []\<rparr> = set_other y ?st"
    by (simp add: set_other_def)
  then show ?thesis
    using decode_samples_other [of ?st header xs y] assms
    by (cases "for_range xs (\<lambda>i. decode_sample header) ?st") (simp_all add: set_other_def)
qed

lemma decode_block_cursor:
  assumes "channel_count header = 1 \<or> channel_count header = 2"
    and "bits_per_sample header = 8 \<or> bits_per_sample header = 16"
    and "i < length offsets" and "length offsets < 2 ^ 64"
    and "length (buffer s) < 2 ^ 64"
  shows "decode_block du header i (s\<lparr>pos := p\<rparr>) offsets = decode_block du header i s offsets"
proof -
  have "length (buffer (s\<lparr>pos := p\<rparr>)) < 2 ^ 64"
    using assms(5) by simp
  from decode_block_eq [OF assms(1-4) this] decode_block_eq [OF assms]
  show ?thesis
    by simp
qed

lemma for_range_cong:
  assumes "\<And>i a. i \<in> set xs \<Longrightarrow> body1 i a = body2 i a"
  shows "for_range xs body1 a = for_range xs body2 a"
  using assms
proof (induction xs arbitrary: a)
  case Nil
  show ?case by simp
next
  case (Cons x xs)
  have "body1 x a = body2 x a"
    using Cons.prems by simp
  moreover have "for_range xs body1 b = for_range xs body2 b" for b
    using Cons.IH Cons.prems by simp
  ultimately show ?case
    by (cases "body2 x a") simp_all
qed

lemma decode_block_any_garbage:
  assumes "channel_count header = 1 \<or> channel_count header = 2"
    and "bits_per_sample header = 8 \<or> bits_per_sample header = 16"
    and "i < length offsets" and "length offsets < 2 ^ 64"
  shows "decode_block du header i s offsets = decode_block du' header i s offsets"
proof (cases "channel_count header = 2")
  case True
  then have "spec_seeds header span du = spec_seeds header span du'" for span
    by (simp add: spec_seeds_def)
  then show ?thesis
    unfolding decode_block_steps [OF assms(3,4)] read_seeds_eq [OF assms(1,2)] by simp
next
  case False
  let ?n = "size_t_sub
              (if i \<noteq> length offsets - 1 then unat (offsets ! (i + 1) - offsets ! i)
               else size_t_sub (length (buffer s)) (unat (offsets ! i)))
              (size_t_mul (drop_bit 3 (bits_per_sample header)) (channel_count header))"
  let ?s1 = "s\<lparr>pos := unat (offsets ! i)
                + (bits_per_sample header div 8) * channel_count header\<rparr>"
  have "bind_err (read ?n ?s1) (\<lambda>(input, s2).
     bind_err (for_range [0..<block_output_size header i] (\<lambda>i. decode_sample header)
                 \<lparr>bit_stream = LsbBitStream input, d = (v, snd du), current_channel = 0,
                  run_length = 0, output_stream = []\<rparr>) (\<lambda>st.
     Inr (output_stream st, s2)))
   = bind_err (read ?n ?s1) (\<lambda>(input, s2).
     bind_err (for_range [0..<block_output_size header i] (\<lambda>i. decode_sample header)
                 \<lparr>bit_stream = LsbBitStream input, d = (v, snd du'), current_channel = 0,
                  run_length = 0, output_stream = []\<rparr>) (\<lambda>st.
     Inr (output_stream st, s2)))" for v
  proof (cases "read ?n ?s1")
    case (Inl e)
    then show ?thesis by simp
  next
    case (Inr r)
    obtain input s2 where r: "r = (input, s2)"
      by (cases r)
    show ?thesis
      unfolding Inr r
      using mono_loop_garbage [OF False, where y = "snd du" and y' = "snd du'"] by simp
  qed
  then show ?thesis
    unfolding decode_block_steps [OF assms(3,4)] read_seeds_eq [OF assms(1,2)] spec_seeds_def
    using False by simp
qed

lemma read_offsets_length:
  assumes "for_range xs read_offset (offs, s) = Inr (offsets, s')"
  shows "length offsets = length offs + length xs"
  using assms
proof (induction xs arbitrary: offs s)
  case Nil
  then show ?case by simp
next
  case (Cons x xs)
  have step: "read_offset x (offs, s)
                = bind_err (read_le_u32 s) (\<lambda>(v, s'). Inr (offs @ [v], s'))"
    by (simp add: read_offset_def)
  from Cons.prems obtain acc where 1: "read_offset x (offs, s) = Inr acc"
    and 2: "for_range xs read_offset acc = Inr (offsets, s')"
    by (auto simp: bind_err_eq_Inr)
  from 1 obtain v s1 where "acc = (offs @ [v], s1)"
    unfolding step by (auto simp: bind_err_eq_Inr)
  with 2 have "for_range xs read_offset (offs @ [v], s1) = Inr (offsets, s')"
    by simp
  from Cons.IH [OF this] show ?case
    by simp
qed

lemma read_blocks_garbage:
  assumes "channel_count header = 1 \<or> channel_count header = 2"
    and "bits_per_sample header = 8 \<or> bits_per_sample header = 16"
    and "block_count header < 2 ^ 64"
  shows "read_blocks du s header = read_blocks du' s header"
proof (cases "for_range [0..<block_count header] read_offset ([], skip 4 s)")
  case (Inl e)
  then show ?thesis
    by (simp add: read_blocks_def)
next
  case (Inr r)
  obtain offsets s1 where r: "r = (offsets, s1)"
    by (cases r)
  have len: "length offsets = block_count header"
    using read_offsets_length [of "[0..<block_count header]" "[]" "skip 4 s" offsets s1] Inr r
    by simp
  have "decode_blocks du header offsets i acc = decode_blocks du' header offsets i acc"
    if "i \<in> set [0..<block_count header]" for i acc
  proof -
    have "i < length offsets" "length offsets < 2 ^ 64"
      using that len assms(3) by simp_all
    from decode_block_any_garbage [OF assms(1,2) this, of "du i" _ "du' i"]
    show ?thesis
      by (cases acc) (simp add: decode_blocks_def)
  qed
  then have "for_range [0..<block_count header] (decode_blocks du header offsets) ([], s1)
           = for_range [0..<block_count header] (decode_blocks du' header offsets) ([], s1)"
    by (rule for_range_cong)
  then show ?thesis
    by (simp add: read_blocks_def Inr r)
qed

lemma read_compressed_samples_garbage:
  assumes "block_count header < 2 ^ 64"
  shows "read_compressed_samples du s header = read_compressed_samples du' s header"
proof (cases "(channel_count header = 1 \<or> channel_count header = 2) \<and>
              (bits_per_sample header = 8 \<or> bits_per_sample header = 16)")
  case True
  then have "read_blocks du s header = read_blocks du' s header"
    using read_blocks_garbage [OF _ _ assms] by blast
  then show ?thesis
    by (simp add: read_compressed_samples_def)
next
  case False
  then show ?thesis
    by (auto simp: read_compressed_samples_def)
qed

lemma decode_impl_garbage: "decode_impl du f = decode_impl du' f"
proof (cases "read_header \<lparr>buffer = buffer (stream f), pos = 0\<rparr>")
  case (Inl e)
  then show ?thesis
    by (simp add: decode_impl_def read_to_eof_def seek_def)
next
  case (Inr r)
  obtain h s where r: "r = (h, s)"
    by (cases r)
  have "header_in_range h"
    using read_header_Inr [of "\<lparr>buffer = buffer (stream f), pos = 0\<rparr>" h s] Inr r by simp
  then have "block_count h < 2 ^ 64"
    by (simp add: header_in_range_def)
  from read_compressed_samples_garbage [OF this, of du s du'] show ?thesis
    by (simp add: decode_impl_def read_to_eof_def seek_def Inr r)
qed

lemma spec_sign_magnitude_exact:
  "spec_sign_magnitude v neg m k = word_of_int (exact_residual v neg m k)"
proof -
  have v: "v = word_of_int (sint v)"
    by simp
  show ?thesis
    by (simp add: spec_sign_magnitude_def exact_residual_def)
qed

lemma wrap_16:
  "sint (word_of_int x :: s16) = signed_take_bit 15 x
   \<and> - 32768 \<le> sint (word_of_int x :: s16) \<and> sint (word_of_int x :: s16) < 32768
   \<and> (sint (word_of_int x :: s16) - x) mod 65536 = 0"
proof -
  let ?w = "word_of_int x :: s16"
  have 1: "sint ?w = signed_take_bit 15 x"
    by (simp only: sint_sbintrunc') simp
  have 2: "- 32768 \<le> sint ?w" "sint ?w < 32768"
    using sint_ge [of ?w] sint_lt [of ?w] by simp_all
  have "take_bit 16 (signed_take_bit 15 x) = take_bit 16 x"
    by (simp add: take_bit_signed_take_bit)
  then have "signed_take_bit 15 x mod 65536 = x mod 65536"
    by (simp add: take_bit_eq_mod)
  then have "(signed_take_bit 15 x - x) mod 65536 = 0"
    by (metis mod_0 mod_diff_cong cancel_comm_monoid_add_class.diff_cancel)
  then show ?thesis
    using 1 2 by simp
qed

lemma residual_bounds:
  assumes "0 \<le> level" "level \<le> 5" "1 \<le> t" "t \<le> 7"
    and "int (length mag) = spec_residual_bits level t - 1"
  shows "bits_value mag < 128 \<and> nat (spec_residual_shift level t) \<le> 11"
proof -
  have "length mag \<le> 7"
    using assms by (auto simp: spec_residual_bits_def split: if_splits)
  then have "(2::nat) ^ length mag \<le> 2 ^ 7"
    by (intro power_increasing) simp_all
  then have "bits_value mag < 128"
    using bits_value_bound [of mag] by simp
  moreover have "nat (spec_residual_shift level t) \<le> 11"
    using assms(1-4) by (auto simp: spec_residual_shift_def)
  ultimately show ?thesis
    by simp
qed

lemma decode_sample_emitted:
  assumes "decode_sample header prev = Inr st"
  shows "output_stream st
           = output_stream prev @ sample_of header (d_at (d st) (current_channel prev))
         \<and> current_channel st = (if channel_count header = 2 then current_channel prev XOR 1
                                  else current_channel prev)"
proof -
  from assms obtain st1 where 1: "decode_code header prev = Inr st1"
    and 2: "st = emit_sample header st1"
    by (auto simp: decode_sample_def bind_err_eq_Inr)
  show ?thesis
    using decode_code_frame [OF 1] by (simp add: 2 emit_sample_eq next_channel_def)
qed

section \<open>The claims\<close>

subsection \<open>Header validation (C2)\<close>

text \<open>
  C2. On the compressed path (the level read from the header is not \<open>-1\<close>) the
  result of \<open>decode_impl\<close> is decided by the header checks in their fixed order:
  level in \<open>[0,5]\<close>, else NotSupportedError; channel count 1 or 2, else
  NotSupportedError; bits per sample 8 or 16, else NotSupportedError; block count
  nonzero, else CorruptDataError; compressed size nonzero, else CorruptDataError;
  uncompressed size equal to \<open>sample_count * bits_per_sample / 8\<close>, else
  BadDataSizeError; sample count equal to \<open>(block_count - 1) * block_size + rest_size\<close>,
  else CorruptDataError. The first violated check gives the result, which is an
  error and carries no audio data; the offset table and the blocks are read only
  when every check has passed. The arithmetic of the two identities is exact:
  on fields read from 16 and 32 bits the \<^verbatim>\<open>size_t\<close> operations do not wrap.
\<close>

theorem validation_order:
  assumes "read_header \<lparr>buffer = buffer (stream f), pos = 0\<rparr> = Inr (h, s)"
    and "compression_level h \<noteq> - 1"
  shows "decode_impl du f =
     (if compression_level h < 0 \<or> 5 < compression_level h
        then Inl (NotSupportedError ''Unsupported compression level'')
      else if channel_count h \<notin> {1, 2}
        then Inl (NotSupportedError ''Unsupported channel count'')
      else if bits_per_sample h \<notin> {8, 16}
        then Inl (NotSupportedError ''Unsupported bits per sample'')
      else if block_count h = 0
        then Inl (CorruptDataError ''No blocks found'')
      else if compressed_size h = 0
        then Inl (CorruptDataError ''No data found'')
      else if uncompressed_size h \<noteq> sample_count h * bits_per_sample h div 8
        then Inl BadDataSizeError
      else if sample_count h \<noteq> (block_count h - 1) * block_size h + rest_size h
        then Inl (CorruptDataError ''Bad sample count'')
      else bind_err (read_blocks du s h) (\<lambda>smp.
             Inr \<lparr>audio_channel_count = channel_count h,
                  audio_bits_per_sample = bits_per_sample h,
                  audio_sample_rate = sample_rate h, samples = smp\<rparr>))"
  using assms by (rule decode_impl_compressed)

text \<open>
  The theorem at a header with three channels and no blocks: the channel count is
  the first violation, so it is the one reported.
\<close>

theorem validation_order_witness:
  "read_header \<lparr>buffer = buffer (stream three_channel_file), pos = 0\<rparr>
     = Inr (\<lparr>channel_count = 3, bits_per_sample = 16, sample_rate = 44100,
              compression_level = 0, use_run_length = False, block_count = 0,
              uncompressed_size = 2, compressed_size = 3, sample_count = 1,
              block_size = 1, rest_size = 1\<rparr>,
            \<lparr>buffer = buffer (stream three_channel_file), pos = 40\<rparr>)
   \<and> decode_impl d_zero three_channel_file
     = Inl (NotSupportedError ''Unsupported channel count'')"
proof -
  have h: "read_header \<lparr>buffer = buffer (stream three_channel_file), pos = 0\<rparr>
     = Inr (\<lparr>channel_count = 3, bits_per_sample = 16, sample_rate = 44100,
              compression_level = 0, use_run_length = False, block_count = 0,
              uncompressed_size = 2, compressed_size = 3, sample_count = 1,
              block_size = 1, rest_size = 1\<rparr>,
            \<lparr>buffer = buffer (stream three_channel_file), pos = 40\<rparr>)"
    by (simp add: three_channel_file_def read_header_def read_le_u16_eq read_le_u32_eq)
  show ?thesis
    using h validation_order [OF h, of d_zero] by simp
qed

subsection \<open>Independence of the cursor (C10)\<close>

text \<open>
  C10. The result of \<open>decode_impl\<close> does not depend on where the cursor of the
  input stream stands when it is called: the stream is rewound and read to its end
  first, so the same bytes under any two cursor positions give the same audio or
  the same error.
\<close>

theorem cursor_independent:
  "decode_impl du (f\<lparr>stream := (stream f)\<lparr>pos := p\<rparr>\<rparr>) = decode_impl du (f\<lparr>stream := (stream f)\<lparr>pos := q\<rparr>\<rparr>)"
  by (simp add: decode_impl_def read_to_eof_def seek_def)

subsection \<open>Length of the decoded output (C1)\<close>

text \<open>
  C1. When the header read from the input selects the compressed path and
  \<open>decode_impl\<close> returns audio (so the header has passed every check and no read
  has failed), the returned sample buffer holds exactly \<open>uncompressed_size\<close>
  bytes. The checked identities hold as exact equations, and every block that
  \<open>decode_block\<close> returns has \<open>block_size * bytes_per_sample\<close> bytes, the last one
  \<open>rest_size * bytes_per_sample\<close>.
\<close>

theorem decoded_length:
  assumes "read_header \<lparr>buffer = buffer (stream f), pos = 0\<rparr> = Inr (h, s)"
    and "compression_level h \<noteq> - 1"
    and "decode_impl du f = Inr a"
  shows "length (samples a) = uncompressed_size h
     \<and> uncompressed_size h = sample_count h * bits_per_sample h div 8
     \<and> sample_count h = (block_count h - 1) * block_size h + rest_size h
     \<and> (\<forall>d0 i s1 offsets blk s2.
           decode_block d0 h i s1 offsets = Inr (blk, s2) \<longrightarrow>
           length blk = (if i \<noteq> block_count h - 1 then block_size h else rest_size h)
                          * (bits_per_sample h div 8))"
proof -
  note c = compressed_Inr [OF assms]
  have r: "header_in_range h"
    using read_header_Inr [OF assms(1)] by simp
  then have b: "block_count h < 2 ^ 32" "block_size h < 2 ^ 32" "rest_size h < 2 ^ 32"
    by (simp_all add: header_in_range_def)
  from c have bits: "bits_per_sample h = 8 \<or> bits_per_sample h = 16" and bc: "0 < block_count h"
    by simp_all
  from c obtain smp where smp: "read_blocks du s h = Inr smp" "samples a = smp"
    by blast
  have "length smp = ((block_count h - 1) * block_size h + rest_size h) * (bits_per_sample h div 8)"
    by (rule read_blocks_length [OF smp(1) bits bc b])
  also have "\<dots> = sample_count h * (bits_per_sample h div 8)"
    using c by simp
  also have "\<dots> = sample_count h * bits_per_sample h div 8"
    using bits by auto
  also have "\<dots> = uncompressed_size h"
    using c by simp
  finally have total: "length (samples a) = uncompressed_size h"
    using smp(2) by simp
  have blocks: "\<forall>d0 i s1 offsets blk s2.
           decode_block d0 h i s1 offsets = Inr (blk, s2) \<longrightarrow>
           length blk = (if i \<noteq> block_count h - 1 then block_size h else rest_size h)
                          * (bits_per_sample h div 8)"
    using decode_block_length [OF _ bits bc b] by blast
  show ?thesis
    using total c blocks by blast
qed

text \<open>
  The theorem at a mono 8-bit input of two blocks (two samples, then one).
\<close>

theorem decoded_length_witness:
  "read_header \<lparr>buffer = buffer (stream two_block_file), pos = 0\<rparr>
     = Inr (\<lparr>channel_count = 1, bits_per_sample = 8, sample_rate = 44100,
              compression_level = 0, use_run_length = False, block_count = 2,
              uncompressed_size = 3, compressed_size = 56, sample_count = 3,
              block_size = 2, rest_size = 1\<rparr>,
            \<lparr>buffer = buffer (stream two_block_file), pos = 40\<rparr>)
   \<and> decode_impl d_zero two_block_file
     = Inr \<lparr>audio_channel_count = 1, audio_bits_per_sample = 8, audio_sample_rate = 44100,
            samples = [10, 10, 20]\<rparr>
   \<and> length [10, 10, 20 :: u8] = 3"
proof -
  have h: "read_header \<lparr>buffer = buffer (stream two_block_file), pos = 0\<rparr>
     = Inr (\<lparr>channel_count = 1, bits_per_sample = 8, sample_rate = 44100,
              compression_level = 0, use_run_length = False, block_count = 2,
              uncompressed_size = 3, compressed_size = 56, sample_count = 3,
              block_size = 2, rest_size = 1\<rparr>,
            \<lparr>buffer = buffer (stream two_block_file), pos = 40\<rparr>)"
    by (simp add: two_block_file_def read_header_def read_le_u16_eq read_le_u32_eq)
  have d: "decode_impl d_zero two_block_file
     = Inr \<lparr>audio_channel_count = 1, audio_bits_per_sample = 8, audio_sample_rate = 44100,
            samples = [10, 10, 20]\<rparr>"
    by (simp add: two_block_file_def d_zero_def decode_impl_def read_header_def read_le_u16_eq read_le_u32_eq
        read_u8_eq read_def read_to_eof_def seek_def skip_def read_compressed_samples_def
        read_blocks_def decode_blocks_def size_t_mul_def size_t_sub_def size_t_add_def
        read_offset_def decode_block_def vec_at_def stream_size_def read_seed_def d_upd_def
        d_at_def decode_sample_def decode_code_def emit_sample_def update_predictor_def
        read_bits_def LsbBitStream_def byte_bits_def write_u8_def write_le_u16_def upt_rec)
  show ?thesis
    using h d decoded_length [OF h _ d] by simp
qed

subsection \<open>The stored path (C5)\<close>

text \<open>
  C5, as amended. When the header declares level \<open>-1\<close> and at least
  \<open>uncompressed_size\<close> bytes follow the 40-byte header, \<open>decode_impl\<close> returns
  exactly those bytes, whatever they are, together with the channel count, the bit
  depth and the sample rate of the header; no other header field is checked. When
  fewer bytes follow the header, the read fails and the result is an error.
\<close>

theorem stored_passthrough:
  assumes "read_header \<lparr>buffer = buffer (stream f), pos = 0\<rparr> = Inr (h, s)"
    and "compression_level h = - 1"
  shows "decode_impl du f =
     (if 40 + uncompressed_size h \<le> length (buffer (stream f))
      then Inr \<lparr>audio_channel_count = channel_count h,
                audio_bits_per_sample = bits_per_sample h,
                audio_sample_rate = sample_rate h,
                samples = take (uncompressed_size h) (drop 40 (buffer (stream f)))\<rparr>
      else Inl BoundsFailure)"
  using assms by (rule decode_impl_uncompressed)

text \<open>
  The theorem at a stored input whose other header fields would fail every check of
  the compressed path.
\<close>

theorem stored_passthrough_witness:
  "read_header \<lparr>buffer = buffer (stream stored_file), pos = 0\<rparr>
     = Inr (\<lparr>channel_count = 3, bits_per_sample = 12, sample_rate = 44100,
              compression_level = - 1, use_run_length = False, block_count = 0,
              uncompressed_size = 3, compressed_size = 0, sample_count = 0,
              block_size = 0, rest_size = 0\<rparr>,
            \<lparr>buffer = buffer (stream stored_file), pos = 40\<rparr>)
   \<and> decode_impl d_zero stored_file
     = Inr \<lparr>audio_channel_count = 3, audio_bits_per_sample = 12, audio_sample_rate = 44100,
            samples = [7, 8, 9]\<rparr>"
proof -
  have h: "read_header \<lparr>buffer = buffer (stream stored_file), pos = 0\<rparr>
     = Inr (\<lparr>channel_count = 3, bits_per_sample = 12, sample_rate = 44100,
              compression_level = - 1, use_run_length = False, block_count = 0,
              uncompressed_size = 3, compressed_size = 0, sample_count = 0,
              block_size = 0, rest_size = 0\<rparr>,
            \<lparr>buffer = buffer (stream stored_file), pos = 40\<rparr>)"
    by (simp add: stored_file_def read_header_def read_le_u16_eq read_le_u32_eq)
  show ?thesis
    using h stored_passthrough [OF h, of d_zero] by (simp add: stored_file_def)
qed

text \<open>
  The claim as stated fails on a truncated input: the header declares level \<open>-1\<close>
  and 4 bytes of samples, two bytes follow, and nothing is returned.
\<close>

theorem stored_passthrough_counterexample:
  "read_header \<lparr>buffer = buffer (stream truncated_stored_file), pos = 0\<rparr>
     = Inr (\<lparr>channel_count = 1, bits_per_sample = 8, sample_rate = 44100,
              compression_level = - 1, use_run_length = False, block_count = 0,
              uncompressed_size = 4, compressed_size = 0, sample_count = 0,
              block_size = 0, rest_size = 0\<rparr>,
            \<lparr>buffer = buffer (stream truncated_stored_file), pos = 40\<rparr>)
   \<and> decode_impl d_zero truncated_stored_file = Inl BoundsFailure"
  by (simp add: truncated_stored_file_def decode_impl_def read_to_eof_def seek_def
      read_header_def read_le_u16_eq read_le_u32_eq read_uncompressed_samples_def read_def)

subsection \<open>The predictor update (C3)\<close>

text \<open>
  C3. With no run pending and a validated level (0 to 5), the code-reading part of
  the sample loop does the following on the bits at the head of the bitstream, read
  least significant bit first. Type code 7 followed by a set bit: the current
  channel's predictor becomes 0 and nothing more is read. Type code 7 followed by a
  clear bit, or a type code \<open>t\<close> from 1 to 6: a field of \<open>bits\<close> bits is read, whose
  first \<open>bits - 1\<close> bits are the magnitude and whose last (top) bit is the sign, and
  the magnitude shifted left by \<open>shift\<close> is subtracted from the predictor when the
  sign bit is set and added otherwise, where \<open>bits\<close> and \<open>shift\<close> are the spec's:
  for type 7, 8 and 9, with the level subtracted from the one and added to the other
  when the level is below 3; for types 1 to 6, \<open>3 + level\<close> and \<open>1 + t\<close> when the
  level is at least 3, else \<open>5 - level\<close> and \<open>2 + t + level\<close>.
\<close>

theorem predictor_update:
  assumes "0 \<le> compression_level header" "compression_level header \<le> 5"
    and "run_length st = 0"
  shows "(bit_stream st = [True, True, True, True] @ rest \<longrightarrow>
            decode_code header st =
              Inr (st\<lparr>bit_stream := rest, d := d_upd (d st) (current_channel st) 0\<rparr>))
     \<and> (bit_stream st = [True, True, True, False] @ mag @ neg # rest \<and>
          int (length mag) = spec_residual_bits (compression_level header) 7 - 1 \<longrightarrow>
            decode_code header st =
              Inr (st\<lparr>bit_stream := rest,
                      d := d_upd (d st) (current_channel st)
                        (spec_sign_magnitude (d_at (d st) (current_channel st)) neg
                           (bits_value mag)
                           (nat (spec_residual_shift (compression_level header) 7)))\<rparr>))
     \<and> (length tb = 3 \<and> 1 \<le> bits_value tb \<and> bits_value tb \<le> 6 \<and>
          bit_stream st = tb @ mag @ neg # rest \<and>
          int (length mag) = spec_residual_bits (compression_level header) (bits_value tb) - 1 \<longrightarrow>
            decode_code header st =
              Inr (st\<lparr>bit_stream := rest,
                      d := d_upd (d st) (current_channel st)
                        (spec_sign_magnitude (d_at (d st) (current_channel st)) neg
                           (bits_value mag)
                           (nat (spec_residual_shift (compression_level header)
                                   (bits_value tb))))\<rparr>))"
  using decode_code_reset [OF assms(3)] decode_code_type7 [OF assms(3,1,2)]
    decode_code_type_1_6 [OF assms(3,1,2)]
  by blast

text \<open>
  The theorem at three runs that start from the predictor 100: a reset; at level 2,
  type 7 with the 6-bit field of magnitude 1 and clear sign (shift 11); at level 4,
  type 3 with the 7-bit field of magnitude 5 and set sign (shift 4).
\<close>

theorem predictor_update_witness:
  "decode_code (level_header 2) (sample_state 100 [True, True, True, True])
     = Inr (sample_state 0 [])
   \<and> decode_code (level_header 2)
       (sample_state 100 [True, True, True, False, True, False, False, False, False, False])
     = Inr (sample_state 2148 [])
   \<and> decode_code (level_header 4)
       (sample_state 100 [True, True, False, True, False, True, False, False, False, True])
     = Inr (sample_state 20 [])"
proof -
  have 1: "decode_code (level_header 2) (sample_state 100 [True, True, True, True])
     = Inr (sample_state 0 [])"
    using predictor_update [where header = "level_header 2"
        and st = "sample_state 100 [True, True, True, True]" and rest = "[]"]
    by (simp add: sample_state_def d_upd_def level_header_def)
  have 2: "decode_code (level_header 2)
       (sample_state 100 [True, True, True, False, True, False, False, False, False, False])
     = Inr (sample_state 2148 [])"
    using predictor_update [where header = "level_header 2"
        and st = "sample_state 100
                    [True, True, True, False, True, False, False, False, False, False]"
        and mag = "[True, False, False, False, False]" and neg = False and rest = "[]"]
    by (simp add: sample_state_def d_upd_def d_at_def level_header_def spec_residual_bits_def
        spec_residual_shift_def spec_sign_magnitude_def)
  have 3: "decode_code (level_header 4)
       (sample_state 100 [True, True, False, True, False, True, False, False, False, True])
     = Inr (sample_state 20 [])"
    using predictor_update [where header = "level_header 4"
        and st = "sample_state 100
                    [True, True, False, True, False, True, False, False, False, True]"
        and tb = "[True, True, False]"
        and mag = "[True, False, True, False, False, False]" and neg = True and rest = "[]"]
    by (simp add: sample_state_def d_upd_def d_at_def level_header_def spec_residual_bits_def
        spec_residual_shift_def spec_sign_magnitude_def)
  show ?thesis
    using 1 2 3 by simp
qed

subsection \<open>Sixteen-bit predictor arithmetic (C9)\<close>

text \<open>
  C9, as amended. The predictors are 16-bit two's complement values. On a validated
  level, a residual code (type 7 with a clear reset bit, or a type from 1 to 6)
  followed by its sign-magnitude field replaces the current channel's predictor
  \<open>v\<close> by the 16-bit word of the exact integer \<open>v + m * 2 ^ k\<close> (sign clear) or
  \<open>v - m * 2 ^ k\<close> (sign set), where \<open>m\<close> is the magnitude read from the field and
  \<open>k\<close> the shift selected by level and type; \<open>m\<close> is below 128 and \<open>k\<close> is at most
  11. The signed value of that word is the exact result wrapped to 16 bits: it lies
  between \<open>-32768\<close> and \<open>32767\<close> and differs from the exact result by a multiple of
  \<open>65536\<close>, so nothing saturates and nothing is widened. Every successful run of
  the code-reading part of the sample loop leaves the other channel's predictor
  alone and resets, keeps or so moves the current one. With 8 bits per sample the
  byte emitted for a sample is the low 8 bits of the predictor.
\<close>

theorem predictor_wraps:
  assumes "0 \<le> compression_level header" "compression_level header \<le> 5"
  shows "(run_length st = 0 \<and>
          bit_stream st = [True, True, True, False] @ mag @ neg # rest \<and>
          int (length mag) = spec_residual_bits (compression_level header) 7 - 1 \<longrightarrow>
            decode_code header st =
              Inr (st\<lparr>bit_stream := rest,
                      d := d_upd (d st) (current_channel st)
                        (word_of_int
                           (exact_residual (d_at (d st) (current_channel st)) neg
                              (bits_value mag)
                              (nat (spec_residual_shift (compression_level header) 7))))\<rparr>)
            \<and> bits_value mag < 128
            \<and> nat (spec_residual_shift (compression_level header) 7) \<le> 11)
     \<and> (run_length st = 0 \<and>
          length tb = 3 \<and> 1 \<le> bits_value tb \<and> bits_value tb \<le> 6 \<and>
          bit_stream st = tb @ mag @ neg # rest \<and>
          int (length mag) = spec_residual_bits (compression_level header) (bits_value tb) - 1 \<longrightarrow>
            decode_code header st =
              Inr (st\<lparr>bit_stream := rest,
                      d := d_upd (d st) (current_channel st)
                        (word_of_int
                           (exact_residual (d_at (d st) (current_channel st)) neg
                              (bits_value mag)
                              (nat (spec_residual_shift (compression_level header)
                                      (bits_value tb)))))\<rparr>)
            \<and> bits_value mag < 128
            \<and> nat (spec_residual_shift (compression_level header) (bits_value tb)) \<le> 11)
     \<and> (sint (word_of_int x :: s16) = signed_take_bit 15 x
          \<and> - 32768 \<le> sint (word_of_int x :: s16) \<and> sint (word_of_int x :: s16) < 32768
          \<and> (sint (word_of_int x :: s16) - x) mod 65536 = 0)
     \<and> (decode_code header st = Inr st' \<longrightarrow>
          (\<exists>w. d st' = d_upd (d st) (current_channel st) w \<and>
            (w = 0 \<or>
             (\<exists>m k neg. m < 128 \<and> k \<le> 11 \<and>
                sint w = signed_take_bit 15
                  (if neg then sint (d_at (d st) (current_channel st)) - int (m * 2 ^ k)
                   else sint (d_at (d st) (current_channel st)) + int (m * 2 ^ k))))))
     \<and> (bits_per_sample header = 8 \<longrightarrow>
          output_stream (emit_sample header st)
            = output_stream st @ [ucast (d_at (d st) (current_channel st))]
          \<and> uint (ucast (d_at (d st) (current_channel st)) :: u8)
            = sint (d_at (d st) (current_channel st)) mod 256)"
proof -
  have 1: "run_length st = 0 \<and>
          bit_stream st = [True, True, True, False] @ mag @ neg # rest \<and>
          int (length mag) = spec_residual_bits (compression_level header) 7 - 1 \<longrightarrow>
            decode_code header st =
              Inr (st\<lparr>bit_stream := rest,
                      d := d_upd (d st) (current_channel st)
                        (word_of_int
                           (exact_residual (d_at (d st) (current_channel st)) neg
                              (bits_value mag)
                              (nat (spec_residual_shift (compression_level header) 7))))\<rparr>)
            \<and> bits_value mag < 128
            \<and> nat (spec_residual_shift (compression_level header) 7) \<le> 11"
    using decode_code_type7 [OF _ assms, of st mag neg rest]
      residual_bounds [OF assms, of 7 mag]
    by (simp add: spec_sign_magnitude_exact)
  have 2: "run_length st = 0 \<and>
          length tb = 3 \<and> 1 \<le> bits_value tb \<and> bits_value tb \<le> 6 \<and>
          bit_stream st = tb @ mag @ neg # rest \<and>
          int (length mag) = spec_residual_bits (compression_level header) (bits_value tb) - 1 \<longrightarrow>
            decode_code header st =
              Inr (st\<lparr>bit_stream := rest,
                      d := d_upd (d st) (current_channel st)
                        (word_of_int
                           (exact_residual (d_at (d st) (current_channel st)) neg
                              (bits_value mag)
                              (nat (spec_residual_shift (compression_level header)
                                      (bits_value tb)))))\<rparr>)
            \<and> bits_value mag < 128
            \<and> nat (spec_residual_shift (compression_level header) (bits_value tb)) \<le> 11"
    using decode_code_type_1_6 [OF _ assms, of st tb mag neg rest]
      residual_bounds [OF assms, of "bits_value tb" mag]
    by (simp add: spec_sign_magnitude_exact)
  have 4: "decode_code header st = Inr st' \<longrightarrow>
          (\<exists>w. d st' = d_upd (d st) (current_channel st) w \<and>
            (w = 0 \<or>
             (\<exists>m k neg. m < 128 \<and> k \<le> 11 \<and>
                sint w = signed_take_bit 15
                  (if neg then sint (d_at (d st) (current_channel st)) - int (m * 2 ^ k)
                   else sint (d_at (d st) (current_channel st)) + int (m * 2 ^ k)))))"
  proof
    assume e: "decode_code header st = Inr st'"
    from decode_code_step [OF e assms]
    obtain w where w: "d st' = d_upd (d st) (current_channel st) w"
      and c: "w = 0 \<or> (\<exists>m k neg. m < 128 \<and> k \<le> 11 \<and>
                     w = spec_sign_magnitude (d_at (d st) (current_channel st)) neg m k)"
      unfolding predictor_step_def by blast
    from c have "w = 0 \<or>
       (\<exists>m k neg. m < 128 \<and> k \<le> 11 \<and>
          sint w = signed_take_bit 15
            (if neg then sint (d_at (d st) (current_channel st)) - int (m * 2 ^ k)
             else sint (d_at (d st) (current_channel st)) + int (m * 2 ^ k)))"
      using sint_spec_sign_magnitude by blast
    with w show "\<exists>w. d st' = d_upd (d st) (current_channel st) w \<and>
            (w = 0 \<or>
             (\<exists>m k neg. m < 128 \<and> k \<le> 11 \<and>
                sint w = signed_take_bit 15
                  (if neg then sint (d_at (d st) (current_channel st)) - int (m * 2 ^ k)
                   else sint (d_at (d st) (current_channel st)) + int (m * 2 ^ k))))"
      by blast
  qed
  have 5: "bits_per_sample header = 8 \<longrightarrow>
          output_stream (emit_sample header st)
            = output_stream st @ [ucast (d_at (d st) (current_channel st))]
          \<and> uint (ucast (d_at (d st) (current_channel st)) :: u8)
            = sint (d_at (d st) (current_channel st)) mod 256"
    using emit_sample_8 [of header st] low_byte by blast
  show ?thesis
    using 1 2 wrap_16 [of x] 4 5 by (elim conjE) (intro conjI; assumption)
qed

text \<open>
  The theorem at level 2 on type 7 with magnitude 31 and clear sign, from the
  predictor 100: \<open>100 + 31 * 2 ^ 11 = 63588\<close> does not fit 16 signed bits and is
  stored as \<open>-1948\<close>; at level 0 on type 6 with magnitude 15 and set sign, from the
  predictor \<open>-32000\<close>: \<open>-32000 - 15 * 2 ^ 8 = -35840\<close> is stored as \<open>29696\<close>; and
  the byte emitted for the first result, 100.
\<close>

theorem predictor_wraps_witness:
  "decode_code (level_header 2)
     (sample_state 100 [True, True, True, False, True, True, True, True, True, False])
     = Inr (sample_state 63588 [])
   \<and> exact_residual 100 False 31 11 = 63588
   \<and> sint (63588 :: s16) = - 1948
   \<and> decode_code (level_header 0)
       (sample_state 33536 [False, True, True, True, True, True, True, True])
     = Inr (sample_state 29696 [])
   \<and> sint (33536 :: s16) = - 32000
   \<and> exact_residual 33536 True 15 8 = - 35840
   \<and> sint (29696 :: s16) = 29696
   \<and> output_stream (emit_sample (level_header 2) (sample_state 63588 [])) = [100]"
proof -
  note defs = level_header_def sample_state_def d_upd_def d_at_def spec_residual_bits_def
    spec_residual_shift_def exact_residual_def
  have 1: "decode_code (level_header 2)
     (sample_state 100 [True, True, True, False, True, True, True, True, True, False])
     = Inr (sample_state 63588 [])"
    using predictor_wraps [where header = "level_header 2"
        and st = "sample_state 100
                    [True, True, True, False, True, True, True, True, True, False]"
        and mag = "[True, True, True, True, True]" and neg = False and rest = "[]"
        and tb = "[]" and x = 0
        and st' = "sample_state 100 []"]
    by (simp add: defs)
  have 2: "decode_code (level_header 0)
       (sample_state 33536 [False, True, True, True, True, True, True, True])
     = Inr (sample_state 29696 [])"
    using predictor_wraps [where header = "level_header 0"
        and st = "sample_state 33536 [False, True, True, True, True, True, True, True]"
        and tb = "[False, True, True]"
        and mag = "[True, True, True, True]" and neg = True and rest = "[]"
        and x = 0 and st' = "sample_state 100 []"]
    by (simp add: defs)
  have 3: "output_stream (emit_sample (level_header 2) (sample_state 63588 [])) = [100]"
    using predictor_wraps [where header = "level_header 2"
        and st = "sample_state 63588 []"
        and tb = "[]" and mag = "[]" and neg = True and rest = "[]"
        and x = 0 and st' = "sample_state 100 []"]
    by (simp add: defs)
  have 4: "exact_residual 100 False 31 11 = 63588" "sint (63588 :: s16) = - 1948"
    "sint (33536 :: s16) = - 32000" "exact_residual 33536 True 15 8 = - 35840"
    "sint (29696 :: s16) = 29696"
    by (simp_all add: exact_residual_def)
  show ?thesis
    using 1 2 3 4 by (intro conjI)
qed

text \<open>
  The claim as stated bounds the shift by 9. At level 2 a type 7 code shifts by
  \<open>9 + 2 = 11\<close>: the field of magnitude 1 moves the predictor from 0 to
  \<open>2048 = 1 * 2 ^ 11\<close>, beyond \<open>1 * 2 ^ 9\<close>.
\<close>

theorem predictor_wraps_counterexample:
  "decode_code (level_header 2)
     (sample_state 0 [True, True, True, False, True, False, False, False, False, False])
     = Inr (sample_state 2048 [])
   \<and> bits_value [True, False, False, False, False] = 1
   \<and> (2048 :: int) = 1 * 2 ^ 11 \<and> (1 * 2 ^ 9 :: int) < 2048"
  using type7_level2_run [of "[True, False, False, False, False]" 0] by simp

subsection \<open>Run-length suppression (C4)\<close>

text \<open>
  C4, as amended. One run of the sample loop's body, \<open>decode_sample\<close>, always ends by
  emitting the current channel's predictor (\<open>emit_sample\<close>, which changes neither
  the predictors nor the bitstream). While the run-length counter is nonzero the
  body only decrements it: no bit is read. With the counter at 0 and run-length
  mode on, type code 0 reads one bit; if it is 0 the counter stays 0; if it is 1 two
  more bits are read, and they are the new counter unless they are 3, in which case
  the next 8 bits are. With run-length mode off, type code 0 reads nothing after its
  3 bits. In each case the predictors are unchanged. In particular, after a sample
  that updated the predictor, a type 0 code with run flag, 2-bit field 3 and 8-bit
  extension 3 makes the next four samples (the one that carries the code and the
  three of the run) emit the current channel's predictor unchanged and read no
  further bits: in a stream that is not stereo these are four further copies of the
  updated value, and in a stereo stream the two channels' predictors alternate,
  starting with the channel that follows the updated one. (The last part of the
  theorem links the two: the sample that a run of the body has just emitted is the
  predictor, as the new state holds it, of the channel the body started on.)
\<close>

theorem run_length_suppression:
  "(output_stream (emit_sample header st)
       = output_stream st @ sample_of header (d_at (d st) (current_channel st))
     \<and> d (emit_sample header st) = d st
     \<and> bit_stream (emit_sample header st) = bit_stream st
     \<and> run_length (emit_sample header st) = run_length st)
   \<and> (run_length st \<noteq> 0 \<longrightarrow>
        decode_sample header st = Inr (emit_sample header (st\<lparr>run_length := run_length st - 1\<rparr>)))
   \<and> (run_length st = 0 \<and> use_run_length header \<and>
        bit_stream st = [False, False, False, False] @ rest \<longrightarrow>
        decode_sample header st = Inr (emit_sample header (st\<lparr>bit_stream := rest, run_length := 0\<rparr>)))
   \<and> (run_length st = 0 \<and> use_run_length header \<and>
        bit_stream st = [False, False, False, True] @ r2 @ rest \<and>
        length r2 = 2 \<and> bits_value r2 \<noteq> 3 \<longrightarrow>
        decode_sample header st
          = Inr (emit_sample header (st\<lparr>bit_stream := rest, run_length := bits_value r2\<rparr>)))
   \<and> (run_length st = 0 \<and> use_run_length header \<and>
        bit_stream st = [False, False, False, True, True, True] @ r3 @ rest \<and> length r3 = 8 \<longrightarrow>
        decode_sample header st
          = Inr (emit_sample header (st\<lparr>bit_stream := rest, run_length := bits_value r3\<rparr>)))
   \<and> (run_length st = 0 \<and> \<not> use_run_length header \<and>
        bit_stream st = [False, False, False] @ rest \<longrightarrow>
        decode_sample header st = Inr (emit_sample header (st\<lparr>bit_stream := rest\<rparr>)))
   \<and> (run_length st = 0 \<and> use_run_length header \<and>
        bit_stream st = [False, False, False, True, True, True,
                         True, True, False, False, False, False, False, False] @ rest \<and>
        length xs = 4 \<longrightarrow>
        for_range xs (\<lambda>i. decode_sample header) st =
          Inr (st\<lparr>bit_stream := rest, run_length := 0,
                  current_channel := channel_after header 4 (current_channel st),
                  output_stream := output_stream st
                     @ held_samples header (d st) (current_channel st) 4\<rparr>))
   \<and> (channel_count header \<noteq> 2 \<longrightarrow>
        held_samples header (d st) (current_channel st) 4
          = concat (replicate 4 (sample_of header (d_at (d st) (current_channel st)))))
   \<and> (channel_count header = 2 \<and> current_channel st < 2 \<longrightarrow>
        held_samples header (d st) (current_channel st) 4
          = sample_of header (d_at (d st) (current_channel st))
            @ sample_of header (d_at (d st) (1 - current_channel st))
            @ sample_of header (d_at (d st) (current_channel st))
            @ sample_of header (d_at (d st) (1 - current_channel st)))
   \<and> (decode_sample header prev = Inr st \<longrightarrow>
        output_stream st
          = output_stream prev @ sample_of header (d_at (d st) (current_channel prev))
        \<and> current_channel st = (if channel_count header = 2 then current_channel prev XOR 1
                                 else current_channel prev))"
proof -
  have e: "output_stream (emit_sample header st)
       = output_stream st @ sample_of header (d_at (d st) (current_channel st))
     \<and> d (emit_sample header st) = d st
     \<and> bit_stream (emit_sample header st) = bit_stream st
     \<and> run_length (emit_sample header st) = run_length st"
    by (simp add: emit_sample_eq)
  have s: "decode_sample header st = Inr (emit_sample header st')"
    if "decode_code header st = Inr st'" for st'
    using that by (simp add: decode_sample_def)
  have 1: "run_length st \<noteq> 0 \<longrightarrow>
        decode_sample header st = Inr (emit_sample header (st\<lparr>run_length := run_length st - 1\<rparr>))"
    using decode_sample_pending by blast
  have 2: "run_length st = 0 \<and> use_run_length header \<and>
        bit_stream st = [False, False, False, False] @ rest \<longrightarrow>
        decode_sample header st = Inr (emit_sample header (st\<lparr>bit_stream := rest, run_length := 0\<rparr>))"
    using s decode_code_zero_no_run by blast
  have 3: "run_length st = 0 \<and> use_run_length header \<and>
        bit_stream st = [False, False, False, True] @ r2 @ rest \<and>
        length r2 = 2 \<and> bits_value r2 \<noteq> 3 \<longrightarrow>
        decode_sample header st
          = Inr (emit_sample header (st\<lparr>bit_stream := rest, run_length := bits_value r2\<rparr>))"
    using s decode_code_zero_short_run by blast
  have 4: "run_length st = 0 \<and> use_run_length header \<and>
        bit_stream st = [False, False, False, True, True, True] @ r3 @ rest \<and> length r3 = 8 \<longrightarrow>
        decode_sample header st
          = Inr (emit_sample header (st\<lparr>bit_stream := rest, run_length := bits_value r3\<rparr>))"
    using s decode_code_zero_long_run by blast
  have 5: "run_length st = 0 \<and> \<not> use_run_length header \<and>
        bit_stream st = [False, False, False] @ rest \<longrightarrow>
        decode_sample header st = Inr (emit_sample header (st\<lparr>bit_stream := rest\<rparr>))"
    using s decode_code_zero_plain by blast
  have 6: "run_length st = 0 \<and> use_run_length header \<and>
        bit_stream st = [False, False, False, True, True, True,
                         True, True, False, False, False, False, False, False] @ rest \<and>
        length xs = 4 \<longrightarrow>
        for_range xs (\<lambda>i. decode_sample header) st =
          Inr (st\<lparr>bit_stream := rest, run_length := 0,
                  current_channel := channel_after header 4 (current_channel st),
                  output_stream := output_stream st
                     @ held_samples header (d st) (current_channel st) 4\<rparr>)"
    using run_of_three by blast
  have 7: "channel_count header \<noteq> 2 \<longrightarrow>
        held_samples header (d st) (current_channel st) 4
          = concat (replicate 4 (sample_of header (d_at (d st) (current_channel st))))"
    using held_samples_mono by blast
  have 8: "channel_count header = 2 \<and> current_channel st < 2 \<longrightarrow>
        held_samples header (d st) (current_channel st) 4
          = sample_of header (d_at (d st) (current_channel st))
            @ sample_of header (d_at (d st) (1 - current_channel st))
            @ sample_of header (d_at (d st) (current_channel st))
            @ sample_of header (d_at (d st) (1 - current_channel st))"
  proof -
    have "held_samples header dd c (Suc (Suc (Suc (Suc 0)))) =
        sample_of header (d_at dd c) @ sample_of header (d_at dd (1 - c))
          @ sample_of header (d_at dd c) @ sample_of header (d_at dd (1 - c))"
      if "channel_count header = 2" "c < 2" for dd c
      using held_samples_stereo [OF that, of dd "Suc (Suc 0)"] held_samples_stereo [OF that, of dd 0]
      by simp
    moreover have "(4::nat) = Suc (Suc (Suc (Suc 0)))"
      by simp
    ultimately show ?thesis
      by metis
  qed
  have 9: "decode_sample header prev = Inr st \<longrightarrow>
        output_stream st
          = output_stream prev @ sample_of header (d_at (d st) (current_channel prev))
        \<and> current_channel st = (if channel_count header = 2 then current_channel prev XOR 1
                                 else current_channel prev)"
    using decode_sample_emitted by blast
  show ?thesis
    using e 1 2 3 4 5 6 7 8 9 by (elim conjE) (intro conjI; assumption)
qed

text \<open>
  The theorem at mono 8-bit states whose predictor is 116: a pending run of 2; type
  0 with a clear run flag; type 0 with the 2-bit run 2; type 0 with the 8-bit run 3,
  over four samples, followed by unread bits; and type 0 with run-length mode off.
  Then the 8-bit run 3 in stereo, right after channel 0 was updated to 116 while
  channel 1 holds 20: the four samples are 20, 116, 20, 116. The last line is the
  complete input \<open>run_length_file\<close>: the updated sample 116 is followed by four
  more samples of 116 and then by the reset sample.
\<close>

theorem run_length_suppression_witness:
  "decode_sample (level_header 0) ((sample_state 116 [True, True, True, True])\<lparr>run_length := 2\<rparr>)
     = Inr ((sample_state 116 [True, True, True, True])\<lparr>run_length := 1, output_stream := [116]\<rparr>)
   \<and> decode_sample (level_header 0) (sample_state 116 [False, False, False, False, True])
     = Inr ((sample_state 116 [True])\<lparr>output_stream := [116]\<rparr>)
   \<and> decode_sample (level_header 0) (sample_state 116 [False, False, False, True, False, True])
     = Inr ((sample_state 116 [])\<lparr>run_length := 2, output_stream := [116]\<rparr>)
   \<and> for_range [1, 2, 3, 4] (\<lambda>i. decode_sample (level_header 0))
       (sample_state 116 [False, False, False, True, True, True,
                          True, True, False, False, False, False, False, False,
                          True, True, True, True])
     = Inr ((sample_state 116 [True, True, True, True])\<lparr>output_stream := [116, 116, 116, 116]\<rparr>)
   \<and> decode_sample ((level_header 0)\<lparr>use_run_length := False\<rparr>)
       (sample_state 116 [False, False, False, True])
     = Inr ((sample_state 116 [True])\<lparr>output_stream := [116]\<rparr>)
   \<and> for_range [1, 2, 3, 4] (\<lambda>i. decode_sample ((level_header 0)\<lparr>channel_count := 2\<rparr>))
       (stereo_state [False, False, False, True, True, True,
                      True, True, False, False, False, False, False, False])
     = Inr ((stereo_state [])\<lparr>current_channel := 1, output_stream := [20, 116, 20, 116]\<rparr>)
   \<and> decode_impl d_zero run_length_file
     = Inr \<lparr>audio_channel_count = 1, audio_bits_per_sample = 8, audio_sample_rate = 44100,
            samples = [116, 116, 116, 116, 116, 0]\<rparr>"
proof -
  note defs = level_header_def sample_state_def emit_sample_def Let_def write_u8_def d_at_def
    sample_of_def next_channel_def held_samples_numeral channel_after_numeral
  have 1: "decode_sample (level_header 0)
       ((sample_state 116 [True, True, True, True])\<lparr>run_length := 2\<rparr>)
     = Inr ((sample_state 116 [True, True, True, True])\<lparr>run_length := 1, output_stream := [116]\<rparr>)"
    using run_length_suppression [where prev = "sample_state 0 []" and header = "level_header 0"
        and st = "(sample_state 116 [True, True, True, True])\<lparr>run_length := 2\<rparr>"
        and rest = "[]" and ?r2.0 = "[]" and ?r3.0 = "[]" and xs = "[]"]
    by (simp add: defs)
  have 2: "decode_sample (level_header 0) (sample_state 116 [False, False, False, False, True])
     = Inr ((sample_state 116 [True])\<lparr>output_stream := [116]\<rparr>)"
    using run_length_suppression [where prev = "sample_state 0 []" and header = "level_header 0"
        and st = "sample_state 116 [False, False, False, False, True]" and rest = "[True]"
        and ?r2.0 = "[]" and ?r3.0 = "[]" and xs = "[]"]
    by (simp add: defs)
  have 3: "decode_sample (level_header 0)
       (sample_state 116 [False, False, False, True, False, True])
     = Inr ((sample_state 116 [])\<lparr>run_length := 2, output_stream := [116]\<rparr>)"
    using run_length_suppression [where prev = "sample_state 0 []" and header = "level_header 0"
        and st = "sample_state 116 [False, False, False, True, False, True]"
        and ?r2.0 = "[False, True]" and rest = "[]" and ?r3.0 = "[]" and xs = "[]"]
    by (simp add: defs)
  have 4: "for_range [1, 2, 3, 4] (\<lambda>i. decode_sample (level_header 0))
       (sample_state 116 [False, False, False, True, True, True,
                          True, True, False, False, False, False, False, False,
                          True, True, True, True])
     = Inr ((sample_state 116 [True, True, True, True])\<lparr>output_stream := [116, 116, 116, 116]\<rparr>)"
    using run_length_suppression [where prev = "sample_state 0 []" and header = "level_header 0"
        and st = "sample_state 116 [False, False, False, True, True, True,
                          True, True, False, False, False, False, False, False,
                          True, True, True, True]"
        and rest = "[True, True, True, True]" and xs = "[1, 2, 3, 4]"
        and ?r2.0 = "[]" and ?r3.0 = "[]"]
    by (simp add: defs)
  have 5: "decode_sample ((level_header 0)\<lparr>use_run_length := False\<rparr>)
       (sample_state 116 [False, False, False, True])
     = Inr ((sample_state 116 [True])\<lparr>output_stream := [116]\<rparr>)"
    using run_length_suppression [where prev = "sample_state 0 []" and header = "(level_header 0)\<lparr>use_run_length := False\<rparr>"
        and st = "sample_state 116 [False, False, False, True]" and rest = "[True]"
        and ?r2.0 = "[]" and ?r3.0 = "[]" and xs = "[]"]
    by (simp add: defs)
  have 7: "for_range [1, 2, 3, 4] (\<lambda>i. decode_sample ((level_header 0)\<lparr>channel_count := 2\<rparr>))
       (stereo_state [False, False, False, True, True, True,
                      True, True, False, False, False, False, False, False])
     = Inr ((stereo_state [])\<lparr>current_channel := 1, output_stream := [20, 116, 20, 116]\<rparr>)"
    using run_length_suppression [where prev = "sample_state 0 []" and header = "(level_header 0)\<lparr>channel_count := 2\<rparr>"
        and st = "stereo_state [False, False, False, True, True, True,
                      True, True, False, False, False, False, False, False]"
        and rest = "[]" and xs = "[1, 2, 3, 4]"
        and ?r2.0 = "[]" and ?r3.0 = "[]"]
    by (simp add: defs stereo_state_def)
  have 6: "decode_impl d_zero run_length_file
     = Inr \<lparr>audio_channel_count = 1, audio_bits_per_sample = 8, audio_sample_rate = 44100,
            samples = [116, 116, 116, 116, 116, 0]\<rparr>"
    by (simp add: run_length_file_def d_zero_def decode_impl_def read_header_def read_le_u16_eq
        read_le_u32_eq read_u8_eq read_def read_to_eof_def seek_def skip_def
        read_compressed_samples_def read_blocks_def decode_blocks_def size_t_mul_def
        size_t_sub_def size_t_add_def read_offset_def decode_block_def vec_at_def
        stream_size_def read_seed_def d_upd_def d_at_def decode_sample_def decode_code_def
        emit_sample_def update_predictor_def read_bits_def LsbBitStream_def byte_bits_def
        write_u8_def write_le_u16_def upt_rec)
  show ?thesis
    using 1 2 3 4 5 7 6 by (intro conjI)
qed

text \<open>
  The claim as stated has the updated value repeated for 3 further samples. In
  the stereo input \<open>stereo_update_file\<close> channel 0 is updated from 100 to 116 and the
  run starts on channel 1, which holds 20: the sample after the updated one is 20,
  not 116. In the mono input \<open>run_length_file\<close> the updated value is repeated for 4
  further samples: the reset code that follows is read for the sixth sample only.
\<close>

theorem run_length_suppression_counterexample:
  "decode_impl d_zero stereo_update_file
     = Inr \<lparr>audio_channel_count = 2, audio_bits_per_sample = 8, audio_sample_rate = 44100,
            samples = [116, 20, 116, 20, 116]\<rparr>
   \<and> (20 :: u8) \<noteq> 116
   \<and> decode_impl d_zero run_length_file
     = Inr \<lparr>audio_channel_count = 1, audio_bits_per_sample = 8, audio_sample_rate = 44100,
            samples = [116, 116, 116, 116, 116, 0]\<rparr>"
  by (simp add: stereo_update_file_def run_length_file_def d_zero_def decode_impl_def
      read_header_def read_le_u16_eq
      read_le_u32_eq read_u8_eq read_def read_to_eof_def seek_def skip_def
      read_compressed_samples_def read_blocks_def decode_blocks_def size_t_mul_def
      size_t_sub_def size_t_add_def read_offset_def decode_block_def vec_at_def
      stream_size_def read_seed_def d_upd_def d_at_def decode_sample_def decode_code_def
      emit_sample_def update_predictor_def read_bits_def LsbBitStream_def byte_bits_def
      write_u8_def write_le_u16_def upt_rec)

subsection \<open>Channel alternation (C7)\<close>

text \<open>
  C7. Every run of the sample loop's body that emits a sample leaves the channel
  index toggled when the stream has two channels and unchanged otherwise, whether
  the sample came from a code or from a pending run. So after \<open>n\<close> samples of a
  block, which starts at channel 0, the index is \<open>n mod 2\<close> in stereo and still 0
  in mono. A pending run of \<open>n\<close> samples reads no bits, keeps the predictors and
  emits them channel by channel: in stereo the two predictors alternate, starting
  with the current channel's.
\<close>

theorem channel_toggle:
  "(decode_sample header st = Inr st' \<longrightarrow>
      current_channel st' = (if channel_count header = 2 then current_channel st XOR 1
                             else current_channel st))
   \<and> (c < 2 \<longrightarrow> c XOR 1 = 1 - c)
   \<and> (for_range xs (\<lambda>i. decode_sample header) st = Inr st' \<and> current_channel st = 0 \<longrightarrow>
        current_channel st' = (if channel_count header = 2 then length xs mod 2 else 0))
   \<and> (run_length st = length xs \<longrightarrow>
        for_range xs (\<lambda>i. decode_sample header) st =
          Inr (st\<lparr>run_length := 0,
                  current_channel := channel_after header (length xs) (current_channel st),
                  output_stream := output_stream st
                     @ held_samples header (d st) (current_channel st) (length xs)\<rparr>))
   \<and> (channel_count header = 2 \<and> c < 2 \<longrightarrow>
        held_samples header dd c 0 = [] \<and>
        held_samples header dd c 1 = sample_of header (d_at dd c) \<and>
        held_samples header dd c (Suc (Suc n)) =
          sample_of header (d_at dd c) @ sample_of header (d_at dd (1 - c))
            @ held_samples header dd c n)
   \<and> (channel_count header \<noteq> 2 \<longrightarrow>
        held_samples header dd c n = concat (replicate n (sample_of header (d_at dd c))))"
proof -
  have 1: "decode_sample header st = Inr st' \<longrightarrow>
      current_channel st' = (if channel_count header = 2 then current_channel st XOR 1
                             else current_channel st)"
    using decode_sample_channel [of header st st'] by (simp add: next_channel_def)
  have 2: "c < 2 \<longrightarrow> c XOR 1 = 1 - c"
    using toggle_bit by blast
  have 3: "for_range xs (\<lambda>i. decode_sample header) st = Inr st' \<and> current_channel st = 0 \<longrightarrow>
        current_channel st' = (if channel_count header = 2 then length xs mod 2 else 0)"
    using decode_samples_channel [of xs header st st']
      channel_after_stereo [of header 0 "length xs"] channel_after_mono [of header "length xs" 0]
    by auto
  have 4: "run_length st = length xs \<longrightarrow>
        for_range xs (\<lambda>i. decode_sample header) st =
          Inr (st\<lparr>run_length := 0,
                  current_channel := channel_after header (length xs) (current_channel st),
                  output_stream := output_stream st
                     @ held_samples header (d st) (current_channel st) (length xs)\<rparr>)"
    using pending_run by blast
  have 5: "channel_count header = 2 \<and> c < 2 \<longrightarrow>
        held_samples header dd c 0 = [] \<and>
        held_samples header dd c 1 = sample_of header (d_at dd c) \<and>
        held_samples header dd c (Suc (Suc n)) =
          sample_of header (d_at dd c) @ sample_of header (d_at dd (1 - c))
            @ held_samples header dd c n"
    using held_samples_stereo [of header c dd n] by simp
  have 6: "channel_count header \<noteq> 2 \<longrightarrow>
        held_samples header dd c n = concat (replicate n (sample_of header (d_at dd c)))"
    using held_samples_mono by blast
  show ?thesis
    using 1 2 3 4 5 6 by (intro conjI)
qed

text \<open>
  The theorem at a pending run of 3 over the predictors 10 and 20: in stereo the
  samples are 10, 20, 10 and the index ends at 1; in mono they are 10, 10, 10 and the
  index stays 0. The last line is the complete stereo input \<open>stereo_run_file\<close>.
\<close>

theorem channel_toggle_witness:
  "for_range [0, 1, 2] (\<lambda>i. decode_sample ((level_header 0)\<lparr>channel_count := 2\<rparr>)) pending_state
     = Inr (pending_state\<lparr>run_length := 0, current_channel := 1, output_stream := [10, 20, 10]\<rparr>)
   \<and> for_range [0, 1, 2] (\<lambda>i. decode_sample (level_header 0)) pending_state
     = Inr (pending_state\<lparr>run_length := 0, current_channel := 0, output_stream := [10, 10, 10]\<rparr>)
   \<and> decode_sample ((level_header 0)\<lparr>channel_count := 2\<rparr>) pending_state
     = Inr (pending_state\<lparr>run_length := 2, current_channel := 1, output_stream := [10]\<rparr>)
   \<and> decode_impl d_zero stereo_run_file
     = Inr \<lparr>audio_channel_count = 2, audio_bits_per_sample = 8, audio_sample_rate = 44100,
            samples = [10, 20, 10, 20]\<rparr>"
proof -
  note defs = level_header_def pending_state_def d_at_def sample_of_def next_channel_def
    held_samples_numeral channel_after_numeral
  have 1: "for_range [0, 1, 2] (\<lambda>i. decode_sample ((level_header 0)\<lparr>channel_count := 2\<rparr>))
       pending_state
     = Inr (pending_state\<lparr>run_length := 0, current_channel := 1, output_stream := [10, 20, 10]\<rparr>)"
    using channel_toggle [where header = "(level_header 0)\<lparr>channel_count := 2\<rparr>"
        and st = pending_state and xs = "[0, 1, 2]" and c = 0 and dd = "(10, 20)" and n = 1
        and st' = pending_state]
    by (simp add: defs)
  have 2: "for_range [0, 1, 2] (\<lambda>i. decode_sample (level_header 0)) pending_state
     = Inr (pending_state\<lparr>run_length := 0, current_channel := 0, output_stream := [10, 10, 10]\<rparr>)"
    using channel_toggle [where header = "level_header 0"
        and st = pending_state and xs = "[0, 1, 2]" and c = 0 and dd = "(10, 20)" and n = 1
        and st' = pending_state]
    by (simp add: defs)
  have 3: "decode_sample ((level_header 0)\<lparr>channel_count := 2\<rparr>) pending_state
     = Inr (pending_state\<lparr>run_length := 2, current_channel := 1, output_stream := [10]\<rparr>)"
    by (simp add: decode_sample_pending emit_sample_eq defs)
  have 4: "decode_impl d_zero stereo_run_file
     = Inr \<lparr>audio_channel_count = 2, audio_bits_per_sample = 8, audio_sample_rate = 44100,
            samples = [10, 20, 10, 20]\<rparr>"
    by (simp add: stereo_run_file_def d_zero_def decode_impl_def read_header_def read_le_u16_eq
        read_le_u32_eq read_u8_eq read_def read_to_eof_def seek_def skip_def
        read_compressed_samples_def read_blocks_def decode_blocks_def size_t_mul_def
        size_t_sub_def size_t_add_def read_offset_def decode_block_def vec_at_def
        stream_size_def read_seed_def d_upd_def d_at_def decode_sample_def decode_code_def
        emit_sample_def update_predictor_def read_bits_def LsbBitStream_def byte_bits_def
        write_u8_def write_le_u16_def upt_rec)
  show ?thesis
    using 1 2 3 4 by (intro conjI)
qed

subsection \<open>Independence of the blocks (C6)\<close>

text \<open>
  C6. For a validated header (one or two channels, 8 or 16 bits), a block index
  inside the offset table and a buffer below \<open>2 ^ 64\<close> bytes, \<open>decode_block\<close> is
  a function of the buffer, the offset table and the block index alone. Its
  compressed span starts at \<open>offsets[i]\<close> and is \<open>offsets[i+1] - offsets[i]\<close> bytes long
  (32-bit subtraction), or reaches the end of the buffer for the last block; when
  the span does not fit the buffer or is shorter than the seeds, the result is a
  read error. Otherwise the predictors are the raw samples at the head of the span,
  one per channel (a byte, or a little-endian 16-bit value), the bitstream is made
  of the bytes of the span after these \<open>bytes_per_sample * channel_count\<close> bytes,
  and the sample loop starts at channel 0 with run length 0 and an empty output.
  Neither the cursor that the previous block left in the stream nor what the
  predictor array held before the block changes the result.
\<close>

theorem block_independent:
  assumes "channel_count header = 1 \<or> channel_count header = 2"
    and "bits_per_sample header = 8 \<or> bits_per_sample header = 16"
    and "i < length offsets" and "length offsets < 2 ^ 64"
    and "length (buffer s) < 2 ^ 64"
  shows "decode_block du header i s offsets =
     (if unat (offsets ! i) + spec_input_size (buffer s) offsets i \<le> length (buffer s) \<and>
         (bits_per_sample header div 8) * channel_count header
            \<le> spec_input_size (buffer s) offsets i
      then bind_err (for_range [0..<block_output_size header i] (\<lambda>i. decode_sample header)
               \<lparr>bit_stream = LsbBitStream
                    (drop ((bits_per_sample header div 8) * channel_count header)
                       (spec_span (buffer s) offsets i)),
                d = spec_seeds header (spec_span (buffer s) offsets i) du,
                current_channel = 0, run_length = 0, output_stream = []\<rparr>)
             (\<lambda>st. Inr (output_stream st,
                         s\<lparr>pos := unat (offsets ! i) + spec_input_size (buffer s) offsets i\<rparr>))
      else Inl BoundsFailure)
   \<and> decode_block du' header i (s\<lparr>pos := p\<rparr>) offsets = decode_block du header i s offsets"
proof -
  have "decode_block du' header i (s\<lparr>pos := p\<rparr>) offsets = decode_block du' header i s offsets"
    by (rule decode_block_cursor [OF assms])
  also have "\<dots> = decode_block du header i s offsets"
    by (rule decode_block_any_garbage [OF assms(1-4)])
  finally show ?thesis
    using decode_block_eq [OF assms, of du] by simp
qed

text \<open>
  The theorem at the second block of \<open>two_block_file\<close>: it decodes to the single
  sample 20 and leaves the cursor at 56, from any cursor and any prior content of
  the predictor array.
\<close>

theorem block_independent_witness:
  "decode_block (0, 0) two_block_header 1 (stream two_block_file) two_block_offsets
     = Inr ([20], (stream two_block_file)\<lparr>pos := 56\<rparr>)
   \<and> decode_block (7, 9) two_block_header 1 ((stream two_block_file)\<lparr>pos := 54\<rparr>)
       two_block_offsets
     = decode_block (0, 0) two_block_header 1 (stream two_block_file) two_block_offsets"
proof -
  have a: "channel_count two_block_header = 1 \<or> channel_count two_block_header = 2"
    "bits_per_sample two_block_header = 8 \<or> bits_per_sample two_block_header = 16"
    "1 < length two_block_offsets" "length two_block_offsets < 2 ^ 64"
    "length (buffer (stream two_block_file)) < 2 ^ 64"
    by (simp_all add: two_block_header_def two_block_offsets_def two_block_file_def)
  note t = block_independent [OF a, of "(0, 0)" "(7, 9)" 54]
  have "decode_block (0, 0) two_block_header 1 (stream two_block_file) two_block_offsets
     = Inr ([20], (stream two_block_file)\<lparr>pos := 56\<rparr>)"
    unfolding t [THEN conjunct1]
    by (simp add: two_block_header_def two_block_offsets_def two_block_file_def
        spec_input_size_def spec_span_def spec_seeds_def spec_seed_def block_output_size_def
        size_t_sub_def size_t_mul_def drop_bit_eq_div upt_rec decode_sample_def decode_code_def
        read_bits_def LsbBitStream_def byte_bits_def emit_sample_def Let_def write_u8_def
        d_at_def)
  then show ?thesis
    using t [THEN conjunct2] by simp
qed

subsection \<open>Determinism (C8)\<close>

text \<open>
  C8. The result of \<open>decode_impl\<close> is a function of the bytes of the input alone:
  two calls on inputs with the same bytes give the same audio (channel count, bits
  per sample, sample rate and sample bytes) or the same error, whatever the paths
  and cursors of the two inputs are and whatever the uninitialised predictor arrays
  of the two runs hold.
\<close>

theorem decode_deterministic:
  assumes "buffer (stream f1) = buffer (stream f2)"
  shows "decode_impl du1 f1 = decode_impl du2 f2"
proof -
  have "decode_impl du1 f1 = decode_impl du1 f2"
    using assms by (simp add: decode_impl_def read_to_eof_def seek_def)
  also have "\<dots> = decode_impl du2 f2"
    by (rule decode_impl_garbage)
  finally show ?thesis .
qed

text \<open>
  The theorem at \<open>run_length_file\<close> and a copy with another path and cursor, run
  with different contents of the uninitialised arrays.
\<close>

theorem decode_deterministic_witness:
  "buffer (stream (run_length_file\<lparr>stream := (stream run_length_file)\<lparr>pos := 17\<rparr>,
                                    path := ''other.nwa''\<rparr>))
     = buffer (stream run_length_file)
   \<and> decode_impl (\<lambda>i. (word_of_nat i, 41))
        (run_length_file\<lparr>stream := (stream run_length_file)\<lparr>pos := 17\<rparr>,
                         path := ''other.nwa''\<rparr>)
     = decode_impl d_zero run_length_file"
proof -
  have b: "buffer (stream (run_length_file\<lparr>stream := (stream run_length_file)\<lparr>pos := 17\<rparr>,
                                    path := ''other.nwa''\<rparr>))
     = buffer (stream run_length_file)"
    by simp
  from b decode_deterministic [OF b] show ?thesis
    by blast
qed

end
